theory Spec2Isabelle
  imports Complex_Main "HOL-Library.AList"
begin

section \<open>Python values, errors and the object store\<close>

text \<open>
  The analog layer of chipy (\<^verbatim>\<open>chipy/analog.py\<close>) keeps its state in Python objects
  that alias each other: a signal is reachable from \<^verbatim>\<open>module.signals\<close> and from every
  device pin that was connected to it, and it is mutated after it was registered
  (\<^verbatim>\<open>AddPower\<close>, \<^verbatim>\<open>AddGnd\<close>). Objects therefore live in an explicit store, one heap per
  class, addressed by natural numbers in allocation order.

  Values handed around by callers are dynamically typed; \<open>pyval\<close> covers the kinds the
  code distinguishes with \<^verbatim>\<open>isinstance\<close> or \<^verbatim>\<open>is None\<close>. A float is carried as the real
  number it denotes (the code never computes with one). \<open>PySignal r\<close> is a reference to
  the \<^verbatim>\<open>ChipyAnalogSignal\<close> object at address \<open>r\<close>. \<open>PyConcat xs\<close> stands for the value of
  \<^verbatim>\<open>chipy.Concat(xs)\<close>, a function of the digital framework that this file only calls.
\<close>

datatype pyval =
    PyNone
  | PyBool bool
  | PyInt int
  | PyFloat real
  | PyStr string
  | PyList "pyval list"
  | PyTuple "pyval list"
  | PyDict "(string \<times> pyval) list"
  | PySignal nat
  | PyConcat "pyval list"

datatype error = AssertionError | NotImplementedError | AttributeError | KeyError

text \<open>\<^verbatim>\<open>isinstance(x, int)\<close>: \<^verbatim>\<open>bool\<close> is a subclass of \<^verbatim>\<open>int\<close>.\<close>

fun isinstance_int :: "pyval \<Rightarrow> bool" where
  "isinstance_int (PyInt i) = True"
| "isinstance_int (PyBool b) = True"
| "isinstance_int v = False"

fun int_of :: "pyval \<Rightarrow> int" where
  "int_of (PyInt i) = i"
| "int_of (PyBool b) = (if b then 1 else 0)"
| "int_of v = 0"

text \<open>
  A Python \<^verbatim>\<open>dict\<close> is an association list in insertion order; \<^verbatim>\<open>d[k] = v\<close> is
  \<^const>\<open>AList.update\<close> (an existing key keeps its place, a new key goes to the end),
  \<^verbatim>\<open>k in d\<close> is \<open>contains\<close>.
\<close>

definition contains :: "('k \<times> 'v) list \<Rightarrow> 'k \<Rightarrow> bool" where
  "contains d k = (k \<in> set (map fst d))"

subsection \<open>The classes\<close>

text \<open>
  \<^verbatim>\<open>ChipyAnalogSignal\<close>. The field \<^verbatim>\<open>codeloc\<close> (a \<^verbatim>\<open>chipy.ChipyCodeLoc()\<close>, which nothing in
  this file reads) is left out. \<open>width\<close> is an integer: it is only ever assigned an
  \<^verbatim>\<open>int\<close> (\<^verbatim>\<open>isinstance(type, int)\<close>) or compared with one.
\<close>

record ChipyAnalogSignal =
  sig_id :: int
  sig_name :: string
  sig_module :: nat
  width :: int
  sig_power :: bool
  power_value :: pyval
  ground :: bool
  inport :: bool
  outport :: bool
  digital :: bool
  high_value :: pyval
  low_value :: pyval
  high_threshold :: pyval
  low_threshold :: pyval

text \<open>
  The four concrete device classes. \<^verbatim>\<open>ChipyResistor\<close>, \<^verbatim>\<open>ChipyCapacitor\<close> and
  \<^verbatim>\<open>ChipyVoltageSource\<close> derive from \<^verbatim>\<open>ChipyPassive\<close>; \<^verbatim>\<open>ChipyTransistor\<close> derives from
  \<^verbatim>\<open>ChipyDevice\<close> directly.
\<close>

datatype device_class = ChipyResistor | ChipyCapacitor | ChipyTransistor | ChipyVoltageSource

fun RefDes :: "device_class \<Rightarrow> string" where
  "RefDes ChipyResistor = ''R''"
| "RefDes ChipyCapacitor = ''C''"
| "RefDes ChipyTransistor = ''Q''"
| "RefDes ChipyVoltageSource = ''V''"

fun Skin :: "device_class \<Rightarrow> string option" where
  "Skin ChipyResistor = Some ''resistor''"
| "Skin ChipyCapacitor = Some ''capacitor''"
| "Skin ChipyTransistor = Some ''transistor-npn''"
| "Skin ChipyVoltageSource = None"

fun is_passive :: "device_class \<Rightarrow> bool" where
  "is_passive ChipyTransistor = False"
| "is_passive k = True"

text \<open>
  A device object. Its attributes are assigned one after the other by the constructors,
  and the object is registered in \<^verbatim>\<open>module.devices\<close> before the pins are resolved; an
  attribute that was not assigned yet is \<open>None\<close>. The instance attribute \<^verbatim>\<open>value\<close>
  shadows the class attribute \<^verbatim>\<open>ChipyDevice.value = ' '\<close>.
\<close>

record ChipyDevice =
  dev_class :: device_class
  dev_name :: "string option"
  dev_module :: "nat option"
  sig1 :: "pyval option"
  sig2 :: "pyval option"
  dev_value :: "pyval option"
  pin_c :: "pyval option"
  pin_b :: "pyval option"
  pin_e :: "pyval option"
  substrate :: "pyval option"
  model :: "(string \<times> pyval) list option"

definition value_of :: "ChipyDevice \<Rightarrow> pyval" where
  "value_of d = (case dev_value d of Some v \<Rightarrow> v | None \<Rightarrow> PyStr '' '')"

record ChipyAnalogModule =
  mod_name :: string
  signals :: "(string \<times> nat) list"
  devices :: "(string \<times> nat) list"

text \<open>
  An entry of \<^verbatim>\<open>chipy.ChipyModulesDict\<close>: an analog module of this file, or a module of
  the digital framework (opaque here).
\<close>

datatype modobj = Analog nat | Digital nat

text \<open>
  The process state: the two globals of \<^verbatim>\<open>chipy.Chipy\<close> this file uses (the module
  registry, and the module of the current context, \<open>None\<close> when there is no context),
  the three heaps with their allocation counters, and the class-level counters
  \<^verbatim>\<open>ChipyAnalogSignal.SigId\<close> and \<^verbatim>\<open>IdCount\<close> of each device class.
\<close>

record world =
  ChipyModulesDict :: "(string \<times> modobj) list"
  ChipyCurrentContext :: "nat option"
  module_heap :: "nat \<Rightarrow> ChipyAnalogModule"
  n_modules :: nat
  signal_heap :: "nat \<Rightarrow> ChipyAnalogSignal"
  n_signals :: nat
  device_heap :: "nat \<Rightarrow> ChipyDevice"
  n_devices :: nat
  SigId :: int
  IdCount :: "device_class \<Rightarrow> int"

type_synonym 'a result = "(error + 'a) \<times> world"

section \<open>\<^verbatim>\<open>ChipyAnalogModule.netlist\<close>\<close>

text \<open>The local function \<^verbatim>\<open>yosys_cell(skin_name, pin_net_dict, value=None)\<close>.\<close>

definition yosys_cell :: "string \<Rightarrow> (string \<times> int) list \<Rightarrow> pyval \<Rightarrow> pyval" where
  "yosys_cell skin_name pin_net_dict val =
     (let connections =
            fold (\<lambda>(pin, net) c. AList.update pin (PyList [PyInt net]) c) pin_net_dict [];
          cell = [(''type'', PyStr skin_name), (''connections'', PyDict connections)]
      in if val \<noteq> PyNone
         then PyDict (AList.update ''attributes'' (PyDict [(''value'', val)]) cell)
         else PyDict cell)"

text \<open>
  \<^verbatim>\<open>self.sigN.id\<close>: reading an attribute that was never assigned, or the \<^verbatim>\<open>id\<close> of something
  that is not a signal, raises \<^verbatim>\<open>AttributeError\<close>.
\<close>

fun pin_id :: "world \<Rightarrow> pyval option \<Rightarrow> error + int" where
  "pin_id w (Some (PySignal r)) = Inr (sig_id (signal_heap w r))"
| "pin_id w p = Inl AttributeError"

text \<open>\<^verbatim>\<open>ChipyPassive.connections\<close> and \<^verbatim>\<open>ChipyTransistor.connections\<close>.\<close>

definition connections :: "world \<Rightarrow> ChipyDevice \<Rightarrow> error + (string \<times> int) list" where
  "connections w d =
     (if is_passive (dev_class d) then
        (case pin_id w (sig1 d) of Inl x \<Rightarrow> Inl x | Inr l \<Rightarrow>
         (case pin_id w (sig2 d) of Inl x \<Rightarrow> Inl x | Inr r \<Rightarrow>
            Inr [(''L'', l), (''R'', r)]))
      else
        (case pin_id w (pin_c d) of Inl x \<Rightarrow> Inl x | Inr c \<Rightarrow>
         (case pin_id w (pin_b d) of Inl x \<Rightarrow> Inl x | Inr b \<Rightarrow>
         (case pin_id w (pin_e d) of Inl x \<Rightarrow> Inl x | Inr e \<Rightarrow>
            Inr [(''C'', c), (''B'', b), (''E'', e)]))))"

text \<open>The loop over \<^verbatim>\<open>self.devices.items()\<close>.\<close>

fun netlist_devices ::
  "world \<Rightarrow> (string \<times> nat) list \<Rightarrow> (string \<times> pyval) list \<Rightarrow> error + (string \<times> pyval) list" where
  "netlist_devices w [] cells = Inr cells"
| "netlist_devices w ((ref, dev) # ds) cells =
     (let device = device_heap w dev in
      case Skin (dev_class device) of
        None \<Rightarrow> netlist_devices w ds cells
      | Some skin \<Rightarrow>
          (case connections w device of
             Inl x \<Rightarrow> Inl x
           | Inr conns \<Rightarrow>
               netlist_devices w ds
                 (AList.update ref (yosys_cell skin conns (value_of device)) cells)))"

text \<open>One iteration of the loop over \<^verbatim>\<open>self.signals.items()\<close>, and the loop.\<close>

definition netlist_signal ::
  "string \<Rightarrow> ChipyAnalogSignal \<Rightarrow> (string \<times> pyval) list \<times> (string \<times> pyval) list
     \<Rightarrow> (string \<times> pyval) list \<times> (string \<times> pyval) list" where
  "netlist_signal name signal pc =
     (case pc of (ports, cells) \<Rightarrow>
        if sig_power signal then
          (ports, AList.update name (yosys_cell ''power'' [(''VCC'', sig_id signal)] (PyStr name)) cells)
        else if ground signal then
          (ports, AList.update name (yosys_cell ''ground'' [(''GND'', sig_id signal)] (PyStr name)) cells)
        else if inport signal then
          (AList.update name
             (PyDict [(''direction'', PyStr ''input''), (''bits'', PyList [PyInt (sig_id signal)])])
             ports, cells)
        else if outport signal then
          (AList.update name
             (PyDict [(''direction'', PyStr ''output''), (''bits'', PyList [PyInt (sig_id signal)])])
             ports, cells)
        else (ports, cells))"

fun netlist_signals ::
  "world \<Rightarrow> (string \<times> nat) list \<Rightarrow> (string \<times> pyval) list \<times> (string \<times> pyval) list
     \<Rightarrow> (string \<times> pyval) list \<times> (string \<times> pyval) list" where
  "netlist_signals w [] pc = pc"
| "netlist_signals w ((name, r) # ss) pc =
     netlist_signals w ss (netlist_signal name (signal_heap w r) pc)"

definition netlist :: "world \<Rightarrow> nat \<Rightarrow> error + pyval" where
  "netlist w self =
     (case netlist_devices w (devices (module_heap w self)) [] of
        Inl x \<Rightarrow> Inl x
      | Inr cells0 \<Rightarrow>
          (case netlist_signals w (signals (module_heap w self)) ([], cells0) of
             (ports, cells) \<Rightarrow>
               Inr (PyDict [(''ports'', PyDict ports), (''cells'', PyDict cells)])))"

section \<open>Constructors\<close>

text \<open>
  A call either returns a value or raises; in both cases it leaves a state behind, so a
  call is a function from the state to a result and the state after it.
\<close>

definition seq :: "(world \<Rightarrow> 'a result) \<Rightarrow> ('a \<Rightarrow> world \<Rightarrow> 'b result) \<Rightarrow> world \<Rightarrow> 'b result" where
  "seq m f w = (case m w of (Inl x, w') \<Rightarrow> (Inl x, w') | (Inr a, w') \<Rightarrow> f a w')"

definition upd_signal :: "nat \<Rightarrow> (ChipyAnalogSignal \<Rightarrow> ChipyAnalogSignal) \<Rightarrow> world \<Rightarrow> world" where
  "upd_signal r f w = w\<lparr>signal_heap := (signal_heap w)(r := f (signal_heap w r))\<rparr>"

definition upd_device :: "nat \<Rightarrow> (ChipyDevice \<Rightarrow> ChipyDevice) \<Rightarrow> world \<Rightarrow> world" where
  "upd_device r f w = w\<lparr>device_heap := (device_heap w)(r := f (device_heap w r))\<rparr>"

definition upd_module :: "nat \<Rightarrow> (ChipyAnalogModule \<Rightarrow> ChipyAnalogModule) \<Rightarrow> world \<Rightarrow> world" where
  "upd_module r f w = w\<lparr>module_heap := (module_heap w)(r := f (module_heap w r))\<rparr>"

text \<open>
  \<^verbatim>\<open>ChipyAnalogModule.__init__\<close>: the object exists before the assertion runs; when the
  assertion fails nothing refers to it.
\<close>

definition ChipyAnalogModule_init :: "string \<Rightarrow> world \<Rightarrow> nat result" where
  "ChipyAnalogModule_init name w =
     (let self = n_modules w;
          w1 = w\<lparr>module_heap := (module_heap w)(self := \<lparr>mod_name = name, signals = [], devices = []\<rparr>),
                 n_modules := Suc self\<rparr>
      in if contains (ChipyModulesDict w1) name then (Inl AssertionError, w1)
         else (Inr self, w1\<lparr>ChipyModulesDict := AList.update name (Analog self) (ChipyModulesDict w1)\<rparr>))"

text \<open>
  \<^verbatim>\<open>ChipyAnalogSignal.__init__(module, name)\<close>. It cannot raise. With \<^verbatim>\<open>name=None\<close> the
  source takes the name from \<^verbatim>\<open>chipy.ChipyAutoName()\<close>; the caller of the model passes
  that name.
\<close>

definition ChipyAnalogSignal_init :: "nat \<Rightarrow> string \<Rightarrow> world \<Rightarrow> nat \<times> world" where
  "ChipyAnalogSignal_init modl name w =
     (let self = n_signals w;
          w1 = upd_module modl (\<lambda>m. m\<lparr>signals := AList.update name self (signals m)\<rparr>)
                 (w\<lparr>n_signals := Suc self\<rparr>);
          w2 = w1\<lparr>SigId := SigId w1 + 1\<rparr>
      in (self,
          w2\<lparr>signal_heap := (signal_heap w2)(self :=
                \<lparr>sig_id = SigId w2, sig_name = name, sig_module = modl, width = 1,
                 sig_power = False, power_value = PyInt 0, ground = False, inport = False,
                 outport = False, digital = False, high_value = PyInt 0, low_value = PyInt 0,
                 high_threshold = PyInt 0, low_threshold = PyInt 0\<rparr>)\<rparr>))"

text \<open>\<^verbatim>\<open>AnalogSig(arg, width=None)\<close>.\<close>

fun AnalogSig :: "pyval \<Rightarrow> int option \<Rightarrow> world \<Rightarrow> pyval result" where
  "AnalogSig (PySignal r) wd w =
     (case wd of
        None \<Rightarrow> (Inr (PySignal r), w)
      | Some x \<Rightarrow> if width (signal_heap w r) = x then (Inr (PySignal r), w)
                  else (Inl AssertionError, w))"
| "AnalogSig (PyTuple xs) wd w =
     (if wd = None then (Inr (PyConcat xs), w) else (Inl AssertionError, w))"
| "AnalogSig (PyList xs) wd w =
     (if wd = None then (Inr (PyConcat xs), w) else (Inl AssertionError, w))"
| "AnalogSig (PyStr arg) wd w =
     (case ChipyCurrentContext w of
        None \<Rightarrow> (Inl AttributeError, w)
      | Some modl \<Rightarrow>
          (case map_of (signals (module_heap w modl)) arg of
             Some signal \<Rightarrow>
               (case wd of
                  None \<Rightarrow> (Inr (PySignal signal), w)
                | Some x \<Rightarrow> if width (signal_heap w signal) = x then (Inr (PySignal signal), w)
                            else (Inl AssertionError, w))
           | None \<Rightarrow>
               (case ChipyAnalogSignal_init modl arg w of
                  (signal, w1) \<Rightarrow>
                    (case wd of
                       None \<Rightarrow> (Inr (PySignal signal), w1)
                     | Some x \<Rightarrow> (Inr (PySignal signal), upd_signal signal (\<lambda>s. s\<lparr>width := x\<rparr>) w1)))))"
| "AnalogSig v wd w = (Inl AssertionError, w)"

text \<open>\<^verbatim>\<open>str(n)\<close> for an integer.\<close>

fun str_nat :: "nat \<Rightarrow> string" where
  "str_nat n =
     (if n < 10 then [''0123456789'' ! n]
      else str_nat (n div 10) @ [''0123456789'' ! (n mod 10)])"

declare str_nat.simps [simp del]

definition str_int :: "int \<Rightarrow> string" where
  "str_int i = (if i < 0 then CHR ''-'' # str_nat (nat (- i)) else str_nat (nat i))"

text \<open>
  \<^verbatim>\<open>ChipyDevice.__init__(module, name)\<close>, for an object of class \<open>cls\<close>: \<^verbatim>\<open>type(self).IdCount\<close>
  is the counter of that class.
\<close>

definition ChipyDevice_init :: "device_class \<Rightarrow> nat \<Rightarrow> string option \<Rightarrow> world \<Rightarrow> nat result" where
  "ChipyDevice_init cls modl name w =
     (let self = n_devices w;
          w1 = w\<lparr>device_heap := (device_heap w)(self :=
                   \<lparr>dev_class = cls, dev_name = None, dev_module = None, sig1 = None, sig2 = None,
                    dev_value = None, pin_c = None, pin_b = None, pin_e = None, substrate = None,
                    model = None\<rparr>),
                 n_devices := Suc self\<rparr>;
          w2 = (case name of
                  None \<Rightarrow> w1\<lparr>IdCount := (IdCount w1)(cls := IdCount w1 cls + 1)\<rparr>
                | Some n \<Rightarrow> w1);
          name' = (case name of None \<Rightarrow> RefDes cls @ str_int (IdCount w2 cls) | Some n \<Rightarrow> n)
      in if contains (devices (module_heap w2 modl)) name' then (Inl AssertionError, w2)
         else (Inr self,
               upd_device self (\<lambda>d. d\<lparr>dev_name := Some name', dev_module := Some modl\<rparr>)
                 (upd_module modl (\<lambda>m. m\<lparr>devices := AList.update name' self (devices m)\<rparr>) w2)))"

text \<open>\<^verbatim>\<open>ChipyPassive.__init__(module, name, sig1, sig2, value)\<close>.\<close>

definition ChipyPassive_init ::
  "device_class \<Rightarrow> nat \<Rightarrow> string option \<Rightarrow> pyval \<Rightarrow> pyval \<Rightarrow> pyval \<Rightarrow> world \<Rightarrow> nat result" where
  "ChipyPassive_init cls modl name s1 s2 val =
     seq (ChipyDevice_init cls modl name) (\<lambda>self.
     seq (AnalogSig s1 (Some 1)) (\<lambda>a.
     seq (\<lambda>w. AnalogSig s2 (Some 1) (upd_device self (\<lambda>d. d\<lparr>sig1 := Some a\<rparr>) w)) (\<lambda>b w.
       (Inr self, upd_device self (\<lambda>d. d\<lparr>dev_value := Some val\<rparr>)
                    (upd_device self (\<lambda>d. d\<lparr>sig2 := Some b\<rparr>) w)))))"

text \<open>\<^verbatim>\<open>ChipyTransistor.__init__(module, name, c, b, e, substrate, **model)\<close>.\<close>

definition ChipyTransistor_init ::
  "nat \<Rightarrow> string option \<Rightarrow> pyval \<Rightarrow> pyval \<Rightarrow> pyval \<Rightarrow> pyval \<Rightarrow> (string \<times> pyval) list
     \<Rightarrow> world \<Rightarrow> nat result" where
  "ChipyTransistor_init modl name c b e sub kwargs =
     seq (ChipyDevice_init ChipyTransistor modl name) (\<lambda>self.
     seq (AnalogSig c (Some 1)) (\<lambda>c'.
     seq (\<lambda>w. AnalogSig b (Some 1) (upd_device self (\<lambda>d. d\<lparr>pin_c := Some c'\<rparr>) w)) (\<lambda>b'.
     seq (\<lambda>w. AnalogSig e (Some 1) (upd_device self (\<lambda>d. d\<lparr>pin_b := Some b'\<rparr>) w)) (\<lambda>e'.
     seq (\<lambda>w. AnalogSig sub (Some 1) (upd_device self (\<lambda>d. d\<lparr>pin_e := Some e'\<rparr>) w)) (\<lambda>s' w.
       (Inr self, upd_device self (\<lambda>d. d\<lparr>model := Some kwargs\<rparr>)
                    (upd_device self (\<lambda>d. d\<lparr>substrate := Some s'\<rparr>) w)))))))"

section \<open>The module-level functions\<close>

text \<open>
  \<^verbatim>\<open>str.split()\<close> without arguments: the words between runs of whitespace. For the
  ASCII range the whitespace characters of \<^verbatim>\<open>str\<close> are 0x09 to 0x0D, 0x1C to 0x1F and the
  space; names are taken to be ASCII.
\<close>

definition isspace :: "char \<Rightarrow> bool" where
  "isspace ch = (ch \<in> set [CHR 0x09, CHR 0x0A, CHR 0x0B, CHR 0x0C, CHR 0x0D,
                            CHR 0x1C, CHR 0x1D, CHR 0x1E, CHR 0x1F, CHR '' ''])"

fun split_from :: "string \<Rightarrow> string \<Rightarrow> string list" where
  "split_from cur [] = (if cur = [] then [] else [cur])"
| "split_from cur (ch # s) =
     (if isspace ch then (if cur = [] then split_from [] s else cur # split_from [] s)
      else split_from (cur @ [ch]) s)"

definition str_split :: "string \<Rightarrow> string list" where
  "str_split s = split_from [] s"

lemma split_from_sum: "sum_list (map length (split_from cur s)) \<le> length cur + length s"
proof (induction s arbitrary: cur)
  case Nil
  then show ?case by simp
next
  case (Cons ch s)
  show ?case using Cons[of "[]"] Cons[of "cur @ [ch]"] by simp
qed

lemma split_from_nonempty: "n \<in> set (split_from cur s) \<Longrightarrow> n \<noteq> []"
proof (induction s arbitrary: cur)
  case Nil
  then show ?case by (simp split: if_splits)
next
  case (Cons ch s)
  then show ?case using Cons.IH[of "[]"] Cons.IH[of "cur @ [ch]"]
    by (simp split: if_splits) blast
qed

lemma longer_than_member:
  assumes "n \<in> set ws" "1 < length ws" "\<forall>x\<in>set ws. x \<noteq> []"
  shows "length n < sum_list (map length ws)"
  using assms
proof (induction ws)
  case Nil
  then show ?case by simp
next
  case (Cons a ws)
  show ?case
  proof (cases "n \<in> set ws")
    case True
    show ?thesis
    proof (cases "1 < length ws")
      case True
      with Cons \<open>n \<in> set ws\<close> have "length n < sum_list (map length ws)" by simp
      then show ?thesis by simp
    next
      case False
      with \<open>n \<in> set ws\<close> have "ws = [n]" by (cases ws) auto
      with Cons.prems show ?thesis by (cases a) auto
    qed
  next
    case False
    with Cons.prems have "n = a" by simp
    from Cons.prems obtain b ws' where "ws = b # ws'" by (cases ws) auto
    with Cons.prems have "b \<noteq> []" by simp
    with \<open>ws = b # ws'\<close> \<open>n = a\<close> show ?thesis by (cases b) auto
  qed
qed

lemma str_split_shorter:
  assumes a: "n \<in> set (str_split s)" and b: "1 < length (str_split s)"
  shows "length n < length s"
proof -
  have c: "\<forall>x\<in>set (str_split s). x \<noteq> []"
    using split_from_nonempty[of _ "[]" s] by (auto simp: str_split_def)
  have "length n < sum_list (map length (str_split s))" by (rule longer_than_member[OF a b c])
  also have "\<dots> \<le> length s" using split_from_sum[of "[]" s] by (simp add: str_split_def)
  finally show ?thesis .
qed

text \<open>
  A list comprehension \<^verbatim>\<open>[f(n) for n in names]\<close> over a call that changes the state: the
  first call that raises ends it, with the state the calls so far have left.
\<close>

fun comprehension :: "('a \<Rightarrow> world \<Rightarrow> 'b result) \<Rightarrow> 'a list \<Rightarrow> world \<Rightarrow> 'b list result" where
  "comprehension f [] w = (Inr [], w)"
| "comprehension f (x # xs) w =
     (case f x w of
        (Inl err, w1) \<Rightarrow> (Inl err, w1)
      | (Inr y, w1) \<Rightarrow>
          (case comprehension f xs w1 of
             (Inl err, w2) \<Rightarrow> (Inl err, w2)
           | (Inr ys, w2) \<Rightarrow> (Inr (y # ys), w2)))"

lemma comprehension_cong [fundef_cong]:
  "xs = ys \<Longrightarrow> w = w' \<Longrightarrow> (\<And>x v. x \<in> set ys \<Longrightarrow> f x v = g x v)
     \<Longrightarrow> comprehension f xs w = comprehension g ys w'"
proof (induction ys arbitrary: xs w w')
  case Nil
  then show ?case by simp
next
  case (Cons y ys)
  have "comprehension f ys v = comprehension g ys v" for v
    by (rule Cons.IH) (simp_all add: Cons.prems)
  with Cons.prems show ?case by (simp split: prod.splits sum.splits)
qed

text \<open>\<^verbatim>\<open>AddAnalogModule(name)\<close>.\<close>

definition AddAnalogModule :: "string \<Rightarrow> world \<Rightarrow> nat result" where
  "AddAnalogModule name w = ChipyAnalogModule_init name w"

text \<open>
  \<^verbatim>\<open>AddDigitalInput(name, type=1, high_value=3.3, low_value=0)\<close>. The recursive calls of
  the comprehension pass the name only, so they run with the defaults.
\<close>

function AddDigitalInput :: "string \<Rightarrow> pyval \<Rightarrow> pyval \<Rightarrow> pyval \<Rightarrow> world \<Rightarrow> pyval result" where
  "AddDigitalInput name ty hv lv w =
     (if length (str_split name) > 1 then
        (case comprehension (\<lambda>n. AddDigitalInput n (PyInt 1) (PyFloat (33 / 10)) (PyInt 0))
                (str_split name) w of
           (Inl err, w1) \<Rightarrow> (Inl err, w1)
         | (Inr sigs, w1) \<Rightarrow> (Inr (PyList sigs), w1))
      else if length (str_split name) \<noteq> 1 then (Inl AssertionError, w)
      else if \<not> isinstance_int ty then (Inl NotImplementedError, w)
      else
        (case ChipyCurrentContext w of
           None \<Rightarrow> (Inl AssertionError, w)
         | Some modl \<Rightarrow>
             (case ChipyAnalogSignal_init modl (hd (str_split name)) w of
                (signal, w1) \<Rightarrow>
                  (Inr (PySignal signal),
                   upd_signal signal
                     (\<lambda>s. s\<lparr>width := int_of ty, inport := True, digital := True,
                             high_value := hv, low_value := lv\<rparr>) w1))))"
  by pat_completeness auto
termination
  by (relation "measure (\<lambda>(name, ty, hv, lv, w). length name)") (auto simp: str_split_shorter)

declare AddDigitalInput.simps [simp del]

text \<open>\<^verbatim>\<open>AddDigitalOutput(name, type=1)\<close> and \<^verbatim>\<open>AddAnalogInput(name, type=1)\<close>.\<close>

definition AddDigitalOutput :: "string \<Rightarrow> pyval \<Rightarrow> world \<Rightarrow> pyval result" where
  "AddDigitalOutput name ty w = (Inl NotImplementedError, w)"

definition AddAnalogInput :: "string \<Rightarrow> pyval \<Rightarrow> world \<Rightarrow> pyval result" where
  "AddAnalogInput name ty w = (Inl NotImplementedError, w)"

text \<open>\<^verbatim>\<open>AddAnalogOutput(name, type=1)\<close>.\<close>

function AddAnalogOutput :: "string \<Rightarrow> pyval \<Rightarrow> world \<Rightarrow> pyval result" where
  "AddAnalogOutput name ty w =
     (if length (str_split name) > 1 then
        (case comprehension (\<lambda>n. AddAnalogOutput n (PyInt 1)) (str_split name) w of
           (Inl err, w1) \<Rightarrow> (Inl err, w1)
         | (Inr sigs, w1) \<Rightarrow> (Inr (PyList sigs), w1))
      else if length (str_split name) \<noteq> 1 then (Inl AssertionError, w)
      else if \<not> isinstance_int ty then (Inl NotImplementedError, w)
      else
        (case ChipyCurrentContext w of
           None \<Rightarrow> (Inl AssertionError, w)
         | Some modl \<Rightarrow>
             (case ChipyAnalogSignal_init modl (hd (str_split name)) w of
                (signal, w1) \<Rightarrow>
                  (Inr (PySignal signal),
                   upd_signal signal (\<lambda>s. s\<lparr>width := int_of ty, outport := True\<rparr>) w1))))"
  by pat_completeness auto
termination
  by (relation "measure (\<lambda>(name, ty, w). length name)") (auto simp: str_split_shorter)

declare AddAnalogOutput.simps [simp del]

text \<open>
  \<^verbatim>\<open>AddPower(name, value)\<close>: \<^verbatim>\<open>name\<close> is both the name of the voltage source and the
  name of its first pin.
\<close>

definition AddPower :: "string \<Rightarrow> pyval \<Rightarrow> world \<Rightarrow> pyval result" where
  "AddPower name val w =
     (case ChipyCurrentContext w of
        None \<Rightarrow> (Inl AssertionError, w)
      | Some modl \<Rightarrow>
          (case ChipyPassive_init ChipyVoltageSource modl (Some name) (PyStr name) (PyStr ''0'') val w of
             (Inl err, w1) \<Rightarrow> (Inl err, w1)
           | (Inr vs, w1) \<Rightarrow>
               (case sig1 (device_heap w1 vs) of
                  Some (PySignal s) \<Rightarrow>
                    (Inr (PySignal s),
                     upd_signal s (\<lambda>x. x\<lparr>sig_power := True, power_value := val\<rparr>) w1)
                | _ \<Rightarrow> (Inl AttributeError, w1))))"

text \<open>\<^verbatim>\<open>AddGnd(name)\<close>.\<close>

definition AddGnd :: "pyval \<Rightarrow> world \<Rightarrow> pyval result" where
  "AddGnd name w =
     (case ChipyCurrentContext w of
        None \<Rightarrow> (Inl AssertionError, w)
      | Some modl \<Rightarrow>
          (case AnalogSig name (Some 1) w of
             (Inl err, w1) \<Rightarrow> (Inl err, w1)
           | (Inr (PySignal s), w1) \<Rightarrow>
               (Inr (PySignal s), upd_signal s (\<lambda>x. x\<lparr>ground := True\<rparr>) w1)
           | (Inr v, w1) \<Rightarrow> (Inl AttributeError, w1)))"

text \<open>\<^verbatim>\<open>AddR\<close>, \<^verbatim>\<open>AddC\<close> and \<^verbatim>\<open>AddQ\<close> return \<^verbatim>\<open>None\<close>.\<close>

definition AddR :: "pyval \<Rightarrow> pyval \<Rightarrow> pyval \<Rightarrow> world \<Rightarrow> pyval result" where
  "AddR s1 s2 val w =
     (case ChipyCurrentContext w of
        None \<Rightarrow> (Inl AssertionError, w)
      | Some modl \<Rightarrow>
          (case ChipyPassive_init ChipyResistor modl None s1 s2 val w of
             (Inl err, w1) \<Rightarrow> (Inl err, w1)
           | (Inr d, w1) \<Rightarrow> (Inr PyNone, w1)))"

definition AddC :: "pyval \<Rightarrow> pyval \<Rightarrow> pyval \<Rightarrow> world \<Rightarrow> pyval result" where
  "AddC s1 s2 val w =
     (case ChipyCurrentContext w of
        None \<Rightarrow> (Inl AssertionError, w)
      | Some modl \<Rightarrow>
          (case ChipyPassive_init ChipyCapacitor modl None s1 s2 val w of
             (Inl err, w1) \<Rightarrow> (Inl err, w1)
           | (Inr d, w1) \<Rightarrow> (Inr PyNone, w1)))"

definition AddQ ::
  "pyval \<Rightarrow> pyval \<Rightarrow> pyval \<Rightarrow> pyval \<Rightarrow> (string \<times> pyval) list \<Rightarrow> world \<Rightarrow> pyval result" where
  "AddQ c b e sub kwargs w =
     (case ChipyCurrentContext w of
        None \<Rightarrow> (Inl AssertionError, w)
      | Some modl \<Rightarrow>
          (case ChipyTransistor_init modl None c b e sub kwargs w of
             (Inl err, w1) \<Rightarrow> (Inl err, w1)
           | (Inr d, w1) \<Rightarrow> (Inr PyNone, w1)))"

section \<open>The circuit-simulation model\<close>

text \<open>
  \<^verbatim>\<open>eispice\<close> is an external library. Its objects are modelled by what this file hands to
  it: a node is \<^verbatim>\<open>eispice.GND\<close> or a name; a device model is the call of \<^verbatim>\<open>eispice.R\<close>,
  \<^verbatim>\<open>eispice.C\<close>, \<^verbatim>\<open>eispice.V\<close> or \<^verbatim>\<open>eispice.Q\<close> with its arguments, or an
  \<^verbatim>\<open>EispiceDigitalInput\<close>; a circuit is its name and the \<^verbatim>\<open>__setattr__\<close> calls made on it, in
  order (what the library does with an attribute is its own business).
\<close>

datatype eispice_node = GND | Node string

text \<open>
  \<^verbatim>\<open>EispiceDigitalInput\<close>, a subclass of \<^verbatim>\<open>eispice.PyB\<close>, with its methods \<^verbatim>\<open>model\<close> and
  \<^verbatim>\<open>set_value\<close>.
\<close>

record EispiceDigitalInput =
  pNode :: string
  di_value :: bool
  high :: pyval
  low :: pyval

definition EispiceDigitalInput_init :: "string \<Rightarrow> pyval \<Rightarrow> pyval \<Rightarrow> EispiceDigitalInput" where
  "EispiceDigitalInput_init p h l = \<lparr>pNode = p, di_value = False, high = h, low = l\<rparr>"

definition EispiceDigitalInput_model :: "EispiceDigitalInput \<Rightarrow> pyval" where
  "EispiceDigitalInput_model self = (if di_value self then high self else low self)"

definition set_value :: "bool \<Rightarrow> EispiceDigitalInput \<Rightarrow> EispiceDigitalInput" where
  "set_value v self = self\<lparr>di_value := v\<rparr>"

datatype eispice_device =
    Eispice_R eispice_node eispice_node pyval
  | Eispice_C eispice_node eispice_node pyval
  | Eispice_V eispice_node eispice_node pyval
  | Eispice_Q eispice_node eispice_node eispice_node "(string \<times> pyval) list"
  | Eispice_PyB EispiceDigitalInput

record eispice_Circuit =
  cct_name :: string
  cct_setattr :: "(string \<times> eispice_device) list"

text \<open>\<^verbatim>\<open>ChipyAnalogSignal.eispice_model\<close>.\<close>

definition signal_eispice_model :: "ChipyAnalogSignal \<Rightarrow> eispice_node" where
  "signal_eispice_model self = (if ground self then GND else Node (sig_name self))"

text \<open>\<^verbatim>\<open>self.sigN.eispice_model()\<close> on a device pin.\<close>

fun pin_eispice_model :: "world \<Rightarrow> pyval option \<Rightarrow> error + eispice_node" where
  "pin_eispice_model w (Some (PySignal r)) = Inr (signal_eispice_model (signal_heap w r))"
| "pin_eispice_model w p = Inl AttributeError"

text \<open>\<^verbatim>\<open>ChipyPassive.eispice_model\<close> and \<^verbatim>\<open>ChipyTransistor.eispice_model\<close>.\<close>

definition device_eispice_model :: "world \<Rightarrow> ChipyDevice \<Rightarrow> error + eispice_device" where
  "device_eispice_model w d =
     (if is_passive (dev_class d) then
        (case pin_eispice_model w (sig1 d) of Inl x \<Rightarrow> Inl x | Inr a \<Rightarrow>
         (case pin_eispice_model w (sig2 d) of Inl x \<Rightarrow> Inl x | Inr b \<Rightarrow>
            Inr ((case dev_class d of
                    ChipyResistor \<Rightarrow> Eispice_R
                  | ChipyCapacitor \<Rightarrow> Eispice_C
                  | _ \<Rightarrow> Eispice_V) a b (value_of d))))
      else
        (case pin_eispice_model w (pin_c d) of Inl x \<Rightarrow> Inl x | Inr c \<Rightarrow>
         (case pin_eispice_model w (pin_b d) of Inl x \<Rightarrow> Inl x | Inr b \<Rightarrow>
         (case pin_eispice_model w (pin_e d) of Inl x \<Rightarrow> Inl x | Inr e \<Rightarrow>
         (case model d of None \<Rightarrow> Inl AttributeError | Some kwargs \<Rightarrow>
            Inr (Eispice_Q c b e kwargs))))))"

text \<open>The two loops of \<^verbatim>\<open>ChipyAnalogModule.eispice_model\<close>, and the method.\<close>

fun eispice_devices ::
  "world \<Rightarrow> (string \<times> nat) list \<Rightarrow> eispice_Circuit \<Rightarrow> error + eispice_Circuit" where
  "eispice_devices w [] cct = Inr cct"
| "eispice_devices w ((name, dev) # ds) cct =
     (case device_eispice_model w (device_heap w dev) of
        Inl x \<Rightarrow> Inl x
      | Inr m \<Rightarrow> eispice_devices w ds (cct\<lparr>cct_setattr := cct_setattr cct @ [(name, m)]\<rparr>))"

fun eispice_signals ::
  "world \<Rightarrow> (string \<times> nat) list \<Rightarrow> eispice_Circuit \<Rightarrow> eispice_Circuit" where
  "eispice_signals w [] cct = cct"
| "eispice_signals w ((name, r) # ss) cct =
     (let signal = signal_heap w r in
      if digital signal \<and> inport signal then
        eispice_signals w ss
          (cct\<lparr>cct_setattr := cct_setattr cct @
                 [(name, Eispice_PyB (EispiceDigitalInput_init (sig_name signal)
                                         (high_value signal) (low_value signal)))]\<rparr>)
      else eispice_signals w ss cct)"

definition eispice_model :: "world \<Rightarrow> nat \<Rightarrow> error + eispice_Circuit" where
  "eispice_model w self =
     (case eispice_devices w (devices (module_heap w self))
             \<lparr>cct_name = mod_name (module_heap w self), cct_setattr = []\<rparr> of
        Inl x \<Rightarrow> Inl x
      | Inr cct \<Rightarrow> Inr (eispice_signals w (signals (module_heap w self)) cct))"

text \<open>\<^verbatim>\<open>EispiceModel(modname)\<close>; a module of the digital framework has no such method.\<close>

definition EispiceModel :: "string \<Rightarrow> world \<Rightarrow> error + eispice_Circuit" where
  "EispiceModel modname w =
     (case map_of (ChipyModulesDict w) modname of
        None \<Rightarrow> Inl KeyError
      | Some (Analog m) \<Rightarrow> eispice_model w m
      | Some (Digital m) \<Rightarrow> Inl AttributeError)"

section \<open>\<^verbatim>\<open>WriteNetlist\<close>\<close>

text \<open>
  The loop over \<^verbatim>\<open>chipy.ChipyModulesDict.items()\<close>. \<^verbatim>\<open>json.dumps\<close> belongs to the
  standard library: it is a parameter, called with the object and with \<^verbatim>\<open>sort_keys\<close>,
  \<^verbatim>\<open>indent\<close> and \<^verbatim>\<open>separators\<close>. The file \<^verbatim>\<open>f\<close> is the text written to it so far;
  \<^verbatim>\<open>print(j, file=f)\<close> appends \<^verbatim>\<open>j\<close> and a newline.
\<close>

fun netlist_modules ::
  "world \<Rightarrow> (string \<times> modobj) list \<Rightarrow> (string \<times> pyval) list \<Rightarrow> error + (string \<times> pyval) list" where
  "netlist_modules w [] modules = Inr modules"
| "netlist_modules w ((modname, Analog m) # ms) modules =
     (case netlist w m of
        Inl x \<Rightarrow> Inl x
      | Inr n \<Rightarrow> netlist_modules w ms (AList.update modname n modules))"
| "netlist_modules w ((modname, Digital m) # ms) modules = netlist_modules w ms modules"

type_synonym json_dumps = "pyval \<Rightarrow> bool \<Rightarrow> nat \<Rightarrow> string \<times> string \<Rightarrow> error + string"

definition WriteNetlist :: "json_dumps \<Rightarrow> string \<Rightarrow> world \<Rightarrow> error + string" where
  "WriteNetlist dumps f w =
     (case netlist_modules w (ChipyModulesDict w) [] of
        Inl x \<Rightarrow> Inl x
      | Inr modules \<Rightarrow>
          (case dumps (PyDict [(''modules'', PyDict modules)]) True 2 ('','', '': '') of
             Inl x \<Rightarrow> Inl x
           | Inr j \<Rightarrow> Inr (f @ j @ [CHR 0x0A])))"

section \<open>Processes\<close>

text \<open>
  The state in which the module is imported: no module, no context, no object, all
  counters at zero. The heaps hold a blank object at every address that is not
  allocated.
\<close>

definition blank_signal :: ChipyAnalogSignal where
  "blank_signal =
     \<lparr>sig_id = 0, sig_name = [], sig_module = 0, width = 0, sig_power = False,
      power_value = PyNone, ground = False, inport = False, outport = False, digital = False,
      high_value = PyNone, low_value = PyNone, high_threshold = PyNone, low_threshold = PyNone\<rparr>"

definition blank_device :: ChipyDevice where
  "blank_device =
     \<lparr>dev_class = ChipyResistor, dev_name = None, dev_module = None, sig1 = None, sig2 = None,
      dev_value = None, pin_c = None, pin_b = None, pin_e = None, substrate = None, model = None\<rparr>"

definition init_world :: world where
  "init_world =
     \<lparr>ChipyModulesDict = [], ChipyCurrentContext = None,
      module_heap = (\<lambda>r. \<lparr>mod_name = [], signals = [], devices = []\<rparr>), n_modules = 0,
      signal_heap = (\<lambda>r. blank_signal), n_signals = 0,
      device_heap = (\<lambda>r. blank_device), n_devices = 0,
      SigId = 0, IdCount = (\<lambda>c. 0)\<rparr>"

text \<open>
  The calls a program can make into this file. \<open>Enter m\<close> and \<open>Exit c\<close> are the context
  manager of a module: both delegate to \<^verbatim>\<open>chipy.ChipyContext\<close>, of which only the effect on
  the current module is known here (\<open>Exit\<close> restores whatever context \<open>c\<close> was current
  before). \<open>Call_AddModule\<close> is the digital framework registering a module of its own.
\<close>

datatype call =
    Call_AddAnalogModule string
  | Call_Enter nat
  | Call_Exit "nat option"
  | Call_AddModule string nat
  | Call_ChipyAnalogSignal nat string
  | Call_AnalogSig pyval "int option"
  | Call_ChipyPassive device_class nat "string option" pyval pyval pyval
  | Call_ChipyTransistor nat "string option" pyval pyval pyval pyval "(string \<times> pyval) list"
  | Call_AddDigitalInput string pyval pyval pyval
  | Call_AddDigitalOutput string pyval
  | Call_AddAnalogInput string pyval
  | Call_AddAnalogOutput string pyval
  | Call_AddPower string pyval
  | Call_AddGnd pyval
  | Call_AddR pyval pyval pyval
  | Call_AddC pyval pyval pyval
  | Call_AddQ pyval pyval pyval pyval "(string \<times> pyval) list"

fun exec :: "call \<Rightarrow> world \<Rightarrow> world" where
  "exec (Call_AddAnalogModule name) w = snd (AddAnalogModule name w)"
| "exec (Call_Enter m) w = w\<lparr>ChipyCurrentContext := Some m\<rparr>"
| "exec (Call_Exit c) w = w\<lparr>ChipyCurrentContext := c\<rparr>"
| "exec (Call_AddModule name m) w =
     (if contains (ChipyModulesDict w) name then w
      else w\<lparr>ChipyModulesDict := AList.update name (Digital m) (ChipyModulesDict w)\<rparr>)"
| "exec (Call_ChipyAnalogSignal m name) w = snd (ChipyAnalogSignal_init m name w)"
| "exec (Call_AnalogSig arg wd) w = snd (AnalogSig arg wd w)"
| "exec (Call_ChipyPassive cls m name s1 s2 v) w = snd (ChipyPassive_init cls m name s1 s2 v w)"
| "exec (Call_ChipyTransistor m name c b e sub kw) w = snd (ChipyTransistor_init m name c b e sub kw w)"
| "exec (Call_AddDigitalInput name ty hv lv) w = snd (AddDigitalInput name ty hv lv w)"
| "exec (Call_AddDigitalOutput name ty) w = snd (AddDigitalOutput name ty w)"
| "exec (Call_AddAnalogInput name ty) w = snd (AddAnalogInput name ty w)"
| "exec (Call_AddAnalogOutput name ty) w = snd (AddAnalogOutput name ty w)"
| "exec (Call_AddPower name v) w = snd (AddPower name v w)"
| "exec (Call_AddGnd name) w = snd (AddGnd name w)"
| "exec (Call_AddR s1 s2 v) w = snd (AddR s1 s2 v w)"
| "exec (Call_AddC s1 s2 v) w = snd (AddC s1 s2 v w)"
| "exec (Call_AddQ c b e sub kw) w = snd (AddQ c b e sub kw w)"

text \<open>The state after a sequence of calls, whether they returned or raised.\<close>

definition run :: "call list \<Rightarrow> world \<Rightarrow> world" where
  "run cs w = fold exec cs w"

section \<open>Notions used in the properties\<close>

text \<open>
  A state for examples: a module \<^verbatim>\<open>top\<close> of the digital framework, an analog module
  \<^verbatim>\<open>rc\<close>, and the context of \<^verbatim>\<open>rc\<close> entered.
\<close>

definition two_modules :: world where
  "two_modules = run [Call_AddModule ''top'' 0, Call_AddAnalogModule ''rc'', Call_Enter 0] init_world"

text \<open>The signal object that \<^verbatim>\<open>ChipyAnalogSignal.__init__\<close> leaves behind.\<close>

definition new_signal :: "int \<Rightarrow> string \<Rightarrow> nat \<Rightarrow> ChipyAnalogSignal" where
  "new_signal i name modl =
     \<lparr>sig_id = i, sig_name = name, sig_module = modl, width = 1,
      sig_power = False, power_value = PyInt 0, ground = False, inport = False,
      outport = False, digital = False, high_value = PyInt 0, low_value = PyInt 0,
      high_threshold = PyInt 0, low_threshold = PyInt 0\<rparr>"

text \<open>
  The invariant behind the ids: the counter \<^verbatim>\<open>SigId\<close> equals the number of signals
  constructed so far, and the signal constructed as number \<open>r + 1\<close> has id \<open>r + 1\<close>.
\<close>

definition ids_ok :: "world \<Rightarrow> bool" where
  "ids_ok w = (SigId w = int (n_signals w)
               \<and> (\<forall>r<n_signals w. sig_id (signal_heap w r) = int r + 1))"

text \<open>Calls that construct two signals.\<close>

definition two_signals :: "call list" where
  "two_signals =
     [Call_AddModule ''top'' 0, Call_AddAnalogModule ''rc'', Call_Enter 0,
      Call_AnalogSig (PyStr ''a'') None, Call_AnalogSig (PyStr ''b'') None]"

text \<open>
  The entries as the netlist format describes them: a cell has a \<^verbatim>\<open>type\<close>, the
  \<^verbatim>\<open>connections\<close> of each pin to a one-element list with the id of its net, and
  \<^verbatim>\<open>attributes\<close> holding the value exactly when there is one; a port has a
  \<^verbatim>\<open>direction\<close> and its \<^verbatim>\<open>bits\<close>, a one-element list with the id of the signal.
\<close>

definition cell_entry :: "string \<Rightarrow> (string \<times> int) list \<Rightarrow> pyval \<Rightarrow> pyval" where
  "cell_entry ty pins v =
     PyDict ([(''type'', PyStr ty),
              (''connections'', PyDict (map (\<lambda>(pin, net). (pin, PyList [PyInt net])) pins))]
             @ (if v = PyNone then [] else [(''attributes'', PyDict [(''value'', v)])]))"

definition port_entry :: "string \<Rightarrow> int \<Rightarrow> pyval" where
  "port_entry dir i = PyDict [(''direction'', PyStr dir), (''bits'', PyList [PyInt i])]"

text \<open>
  A device whose constructor ran to its end has its pins. A constructor that raises
  while it resolves a pin leaves the device registered without them, and \<^verbatim>\<open>netlist()\<close>
  then raises \<^verbatim>\<open>AttributeError\<close>.
\<close>

fun is_signal :: "pyval option \<Rightarrow> bool" where
  "is_signal (Some (PySignal r)) = True"
| "is_signal p = False"

definition device_complete :: "ChipyDevice \<Rightarrow> bool" where
  "device_complete d =
     (if is_passive (dev_class d) then is_signal (sig1 d) \<and> is_signal (sig2 d)
      else is_signal (pin_c d) \<and> is_signal (pin_b d) \<and> is_signal (pin_e d) \<and> model d \<noteq> None)"

definition constructed :: "world \<Rightarrow> nat \<Rightarrow> bool" where
  "constructed w self =
     list_all (\<lambda>(name, dev). device_complete (device_heap w dev)) (devices (module_heap w self))"

text \<open>Where an entry of the netlist comes from.\<close>

definition device_cell :: "world \<Rightarrow> nat \<Rightarrow> string \<Rightarrow> pyval \<Rightarrow> bool" where
  "device_cell w self k c =
     (\<exists>dev ty pins. (k, dev) \<in> set (devices (module_heap w self))
        \<and> Skin (dev_class (device_heap w dev)) = Some ty
        \<and> connections w (device_heap w dev) = Inr pins
        \<and> c = cell_entry ty pins (value_of (device_heap w dev)))"

definition signal_cell :: "world \<Rightarrow> nat \<Rightarrow> string \<Rightarrow> pyval \<Rightarrow> bool" where
  "signal_cell w self k c =
     (\<exists>r. (k, r) \<in> set (signals (module_heap w self))
        \<and> (c = cell_entry ''power'' [(''VCC'', sig_id (signal_heap w r))] (PyStr k)
           \<or> c = cell_entry ''ground'' [(''GND'', sig_id (signal_heap w r))] (PyStr k)))"

definition signal_port :: "world \<Rightarrow> nat \<Rightarrow> string \<Rightarrow> pyval \<Rightarrow> bool" where
  "signal_port w self k p =
     (\<exists>r. (k, r) \<in> set (signals (module_heap w self))
        \<and> (p = port_entry ''input'' (sig_id (signal_heap w r))
           \<or> p = port_entry ''output'' (sig_id (signal_heap w r))))"

text \<open>
  A design for examples, as the calls \<^verbatim>\<open>AddPower('vcc', 5)\<close>, \<^verbatim>\<open>AddGnd('0')\<close>,
  \<^verbatim>\<open>AddDigitalInput('din')\<close>, \<^verbatim>\<open>AddAnalogOutput('out')\<close>, \<^verbatim>\<open>AddR('din', 'out', '10k')\<close> and
  \<^verbatim>\<open>AddC('out', '0', None)\<close> leave it in the module \<^verbatim>\<open>rc\<close>.
\<close>

definition rc_signals :: "nat \<Rightarrow> ChipyAnalogSignal" where
  "rc_signals =
     (\<lambda>r. blank_signal)
       (0 := (new_signal 1 ''vcc'' 0)\<lparr>sig_power := True, power_value := PyInt 5\<rparr>,
        1 := (new_signal 2 ''0'' 0)\<lparr>ground := True\<rparr>,
        2 := (new_signal 3 ''din'' 0)\<lparr>inport := True, digital := True,
                                       high_value := PyFloat (33 / 10), low_value := PyInt 0\<rparr>,
        3 := (new_signal 4 ''out'' 0)\<lparr>outport := True\<rparr>)"

definition rc_devices :: "nat \<Rightarrow> ChipyDevice" where
  "rc_devices =
     (\<lambda>r. blank_device)
       (0 := blank_device\<lparr>dev_class := ChipyVoltageSource, dev_name := Some ''vcc'',
                          dev_module := Some 0, sig1 := Some (PySignal 0),
                          sig2 := Some (PySignal 1), dev_value := Some (PyInt 5)\<rparr>,
        1 := blank_device\<lparr>dev_class := ChipyResistor, dev_name := Some ''R1'',
                          dev_module := Some 0, sig1 := Some (PySignal 2),
                          sig2 := Some (PySignal 3), dev_value := Some (PyStr ''10k'')\<rparr>,
        2 := blank_device\<lparr>dev_class := ChipyCapacitor, dev_name := Some ''C1'',
                          dev_module := Some 0, sig1 := Some (PySignal 3),
                          sig2 := Some (PySignal 1), dev_value := Some PyNone\<rparr>)"

definition rc_world :: world where
  "rc_world =
     \<lparr>ChipyModulesDict = [(''top'', Digital 0), (''rc'', Analog 0)],
      ChipyCurrentContext = Some 0,
      module_heap = (\<lambda>r. \<lparr>mod_name = [], signals = [], devices = []\<rparr>)
                      (0 := \<lparr>mod_name = ''rc'',
                             signals = [(''vcc'', 0), (''0'', 1), (''din'', 2), (''out'', 3)],
                             devices = [(''vcc'', 0), (''R1'', 1), (''C1'', 2)]\<rparr>),
      n_modules = 1,
      signal_heap = rc_signals, n_signals = 4,
      device_heap = rc_devices, n_devices = 3,
      SigId = 4, IdCount = (\<lambda>c. 0)(ChipyResistor := 1, ChipyCapacitor := 1)\<rparr>"

text \<open>The netlist of the example design.\<close>

definition rc_netlist :: pyval where
  "rc_netlist =
     PyDict
      [(''ports'',
        PyDict [(''din'', port_entry ''input'' 3), (''out'', port_entry ''output'' 4)]),
       (''cells'',
        PyDict
         [(''R1'', cell_entry ''resistor'' [(''L'', 3), (''R'', 4)] (PyStr ''10k'')),
          (''C1'', cell_entry ''capacitor'' [(''L'', 4), (''R'', 2)] PyNone),
          (''vcc'', cell_entry ''power'' [(''VCC'', 1)] (PyStr ''vcc'')),
          (''0'', cell_entry ''ground'' [(''GND'', 2)] (PyStr ''0''))])]"

text \<open>The calls that build the example design; they lead to \<open>rc_world\<close>.\<close>

definition rc_calls :: "call list" where
  "rc_calls =
     [Call_AddModule ''top'' 0,
      Call_AddAnalogModule ''rc'',
      Call_Enter 0,
      Call_AddPower ''vcc'' (PyInt 5),
      Call_AddGnd (PyStr ''0''),
      Call_AddDigitalInput ''din'' (PyInt 1) (PyFloat (33 / 10)) (PyInt 0),
      Call_AddAnalogOutput ''out'' (PyInt 1),
      Call_AddR (PyStr ''din'') (PyStr ''out'') (PyStr ''10k''),
      Call_AddC (PyStr ''out'') (PyStr ''0'') PyNone]"

text \<open>The entries under a signal's name after its iteration, given those before it.\<close>

definition contribution ::
  "string \<Rightarrow> ChipyAnalogSignal \<Rightarrow> pyval option \<times> pyval option \<Rightarrow> pyval option \<times> pyval option" where
  "contribution name s before =
     (if sig_power s then
        (fst before, Some (cell_entry ''power'' [(''VCC'', sig_id s)] (PyStr name)))
      else if ground s then
        (fst before, Some (cell_entry ''ground'' [(''GND'', sig_id s)] (PyStr name)))
      else if inport s then (Some (port_entry ''input'' (sig_id s)), snd before)
      else if outport s then (Some (port_entry ''output'' (sig_id s)), snd before)
      else before)"

text \<open>The attribute that the loop sets for a device.\<close>

definition device_attribute :: "world \<Rightarrow> string \<times> nat \<Rightarrow> string \<times> eispice_device \<Rightarrow> bool" where
  "device_attribute w entry attr =
     (fst attr = fst entry \<and> device_eispice_model w (device_heap w (snd entry)) = Inr (snd attr))"

text \<open>The attributes that the loop sets for the signals.\<close>

definition digital_inputs :: "world \<Rightarrow> (string \<times> nat) list \<Rightarrow> (string \<times> eispice_device) list" where
  "digital_inputs w ss =
     map (\<lambda>(name, r). (name, Eispice_PyB (EispiceDigitalInput_init (sig_name (signal_heap w r))
                                  (high_value (signal_heap w r)) (low_value (signal_heap w r)))))
       (filter (\<lambda>(name, r). digital (signal_heap w r) \<and> inport (signal_heap w r)) ss)"

text \<open>The circuit of the example design.\<close>

definition rc_circuit :: eispice_Circuit where
  "rc_circuit =
     \<lparr>cct_name = ''rc'',
      cct_setattr =
        [(''vcc'', Eispice_V (Node ''vcc'') GND (PyInt 5)),
         (''R1'', Eispice_R (Node ''din'') (Node ''out'') (PyStr ''10k'')),
         (''C1'', Eispice_C (Node ''out'') GND PyNone),
         (''din'', Eispice_PyB \<lparr>pNode = ''din'', di_value = False,
                                high = PyFloat (33 / 10), low = PyInt 0\<rparr>)]\<rparr>"

text \<open>A stand-in for \<^verbatim>\<open>json.dumps\<close> that tells only whether the keys were to be sorted.\<close>

definition dumps_stub :: json_dumps where
  "dumps_stub obj sort_keys indent separators = Inr (if sort_keys then ''sorted'' else ''unsorted'')"

text \<open>
  No dictionary has a key twice, and every registered signal is an allocated object
  registered under its own name.
\<close>

definition registries_ok :: "world \<Rightarrow> bool" where
  "registries_ok w =
     (distinct (map fst (ChipyModulesDict w))
      \<and> (\<forall>m. distinct (map fst (signals (module_heap w m)))
             \<and> distinct (map fst (devices (module_heap w m)))
             \<and> (\<forall>(name, r)\<in>set (signals (module_heap w m)).
                   r < n_signals w \<and> sig_name (signal_heap w r) = name)))"

section \<open>Properties\<close>

subsection \<open>Frame lemmas\<close>

lemma update_fresh: "\<not> contains d k \<Longrightarrow> AList.update k v d = d @ [(k, v)]"
  by (induction d) (auto simp: contains_def)

lemma AnalogSig_frame:
  assumes "AnalogSig a wd w = (res, w1)"
  shows "devices (module_heap w1 m) = devices (module_heap w m)"
    and "device_heap w1 = device_heap w"
    and "n_devices w1 = n_devices w"
    and "ChipyModulesDict w1 = ChipyModulesDict w"
    and "ChipyCurrentContext w1 = ChipyCurrentContext w"
    and "IdCount w1 = IdCount w"
  using assms
  by (cases a; auto simp: ChipyAnalogSignal_init_def upd_module_def upd_signal_def Let_def
        split: option.splits if_splits prod.splits)+

subsection \<open>The stubs\<close>

text \<open>
  C5. \<^verbatim>\<open>AddDigitalOutput\<close> and \<^verbatim>\<open>AddAnalogInput\<close> raise \<^verbatim>\<open>NotImplementedError\<close> on every
  input; \<^verbatim>\<open>AddDigitalInput\<close> and \<^verbatim>\<open>AddAnalogOutput\<close> raise it whenever they are called with
  a single name and a \<^verbatim>\<open>type\<close> that is not an \<^verbatim>\<open>int\<close>. In each case the state after the call
  is the state before it: no signal or device was registered.
\<close>

theorem not_implemented_stubs:
  "AddDigitalOutput name ty w = (Inl NotImplementedError, w)
   \<and> AddAnalogInput name ty w = (Inl NotImplementedError, w)
   \<and> (length (str_split name) = 1 \<and> \<not> isinstance_int ty \<longrightarrow>
        AddDigitalInput name ty hv lv w = (Inl NotImplementedError, w)
        \<and> AddAnalogOutput name ty w = (Inl NotImplementedError, w))"
  by (simp add: AddDigitalOutput_def AddAnalogInput_def AddDigitalInput.simps AddAnalogOutput.simps)

theorem not_implemented_stubs_witness:
  "length (str_split ''clk'') = 1 \<and> \<not> isinstance_int (PyStr ''wire'')
   \<and> AddDigitalInput ''clk'' (PyStr ''wire'') (PyFloat 5) (PyInt 0) init_world
        = (Inl NotImplementedError, init_world)
   \<and> AddAnalogOutput ''clk'' (PyStr ''wire'') init_world = (Inl NotImplementedError, init_world)"
  using not_implemented_stubs [of "''clk''" "PyStr ''wire''" init_world "PyFloat 5" "PyInt 0"]
  by (simp add: str_split_def isspace_def)

lemma str_int_1: "str_int 1 = ''1''"
  by (simp add: str_int_def str_nat.simps)

lemma ChipyDevice_init_devices:
  assumes "ChipyDevice_init cls m nm w = (Inr d, w1)"
  shows "\<exists>n. \<not> contains (devices (module_heap w m)) n
             \<and> devices (module_heap w1 m) = devices (module_heap w m) @ [(n, d)]"
  using assms
  by (auto simp: ChipyDevice_init_def Let_def upd_device_def upd_module_def update_fresh
           split: option.splits if_splits)

lemma upd_device_devices: "devices (module_heap (upd_device r f w) m) = devices (module_heap w m)"
  by (simp add: upd_device_def)

lemma ChipyPassive_init_devices:
  assumes "ChipyPassive_init cls m nm s1 s2 v w = (Inr d, w1)"
  shows "\<exists>n. \<not> contains (devices (module_heap w m)) n
             \<and> devices (module_heap w1 m) = devices (module_heap w m) @ [(n, d)]"
proof -
  from assms obtain wa a wb b wc where
    1: "ChipyDevice_init cls m nm w = (Inr d, wa)" and
    2: "AnalogSig s1 (Some 1) wa = (Inr a, wb)" and
    3: "AnalogSig s2 (Some 1) (upd_device d (\<lambda>x. x\<lparr>sig1 := Some a\<rparr>) wb) = (Inr b, wc)" and
    4: "w1 = upd_device d (\<lambda>x. x\<lparr>dev_value := Some v\<rparr>) (upd_device d (\<lambda>x. x\<lparr>sig2 := Some b\<rparr>) wc)"
    by (auto simp: ChipyPassive_init_def seq_def split: prod.splits sum.splits)
  have "devices (module_heap w1 m) = devices (module_heap wa m)"
    using AnalogSig_frame(1)[OF 2] AnalogSig_frame(1)[OF 3] 4 by (simp add: upd_device_devices)
  with ChipyDevice_init_devices[OF 1] show ?thesis by simp
qed

lemma ChipyTransistor_init_devices:
  assumes "ChipyTransistor_init m nm c b e sub kw w = (Inr d, w1)"
  shows "\<exists>n. \<not> contains (devices (module_heap w m)) n
             \<and> devices (module_heap w1 m) = devices (module_heap w m) @ [(n, d)]"
proof -
  from assms obtain wa c' wb b' wc e' wd s' we where
    1: "ChipyDevice_init ChipyTransistor m nm w = (Inr d, wa)" and
    2: "AnalogSig c (Some 1) wa = (Inr c', wb)" and
    3: "AnalogSig b (Some 1) (upd_device d (\<lambda>x. x\<lparr>pin_c := Some c'\<rparr>) wb) = (Inr b', wc)" and
    4: "AnalogSig e (Some 1) (upd_device d (\<lambda>x. x\<lparr>pin_b := Some b'\<rparr>) wc) = (Inr e', wd)" and
    5: "AnalogSig sub (Some 1) (upd_device d (\<lambda>x. x\<lparr>pin_e := Some e'\<rparr>) wd) = (Inr s', we)" and
    6: "w1 = upd_device d (\<lambda>x. x\<lparr>model := Some kw\<rparr>) (upd_device d (\<lambda>x. x\<lparr>substrate := Some s'\<rparr>) we)"
    by (auto simp: ChipyTransistor_init_def seq_def split: prod.splits sum.splits)
  have "devices (module_heap w1 m) = devices (module_heap wa m)"
    using AnalogSig_frame(1)[OF 2] AnalogSig_frame(1)[OF 3] AnalogSig_frame(1)[OF 4]
      AnalogSig_frame(1)[OF 5] 6
    by (simp add: upd_device_devices)
  with ChipyDevice_init_devices[OF 1] show ?thesis by simp
qed

lemma AddAnalogModule_registry:
  assumes "AddAnalogModule name w = (res, w1)"
  shows "case res of
           Inl x \<Rightarrow> x = AssertionError \<and> contains (ChipyModulesDict w) name
                    \<and> ChipyModulesDict w1 = ChipyModulesDict w
         | Inr m \<Rightarrow> \<not> contains (ChipyModulesDict w) name
                    \<and> ChipyModulesDict w1 = ChipyModulesDict w @ [(name, Analog m)]"
  using assms
  by (auto simp: AddAnalogModule_def ChipyAnalogModule_init_def Let_def update_fresh
           split: if_splits)

subsection \<open>Registration adds one entry\<close>

text \<open>
  C7. When \<^verbatim>\<open>AddAnalogModule(name)\<close> returns, \<^verbatim>\<open>ChipyModulesDict\<close> is the registry it found
  with one entry appended, under \<^verbatim>\<open>name\<close> (which was not a key before) and referring to
  the new module; every earlier entry is where and what it was. Likewise, when the
  constructor of a passive device or of a transistor returns, the \<^verbatim>\<open>devices\<close> dictionary
  of the module it was given is the old one with one entry appended, for the new device
  under a name that was not a key before.
\<close>

theorem registration_adds_one_entry:
  "(\<forall>m w1. AddAnalogModule name w = (Inr m, w1) \<longrightarrow>
       \<not> contains (ChipyModulesDict w) name
       \<and> ChipyModulesDict w1 = ChipyModulesDict w @ [(name, Analog m)])
   \<and> (\<forall>d w1. ChipyPassive_init cls modl nm s1 s2 v w = (Inr d, w1) \<longrightarrow>
       (\<exists>n. \<not> contains (devices (module_heap w modl)) n
            \<and> devices (module_heap w1 modl) = devices (module_heap w modl) @ [(n, d)]))
   \<and> (\<forall>d w1. ChipyTransistor_init tmodl tnm c b e sub kw w = (Inr d, w1) \<longrightarrow>
       (\<exists>n. \<not> contains (devices (module_heap w tmodl)) n
            \<and> devices (module_heap w1 tmodl) = devices (module_heap w tmodl) @ [(n, d)]))"
  using AddAnalogModule_registry[of name w] ChipyPassive_init_devices ChipyTransistor_init_devices
  by fastforce

lemmas eval_defs = run_def init_world_def
  AddAnalogModule_def ChipyAnalogModule_init_def contains_def
  ChipyPassive_init_def ChipyTransistor_init_def ChipyDevice_init_def seq_def
  ChipyAnalogSignal_init_def upd_signal_def upd_device_def upd_module_def
  str_int_1 Let_def

lemma two_modules_eq:
  "two_modules =
     \<lparr>ChipyModulesDict = [(''top'', Digital 0), (''rc'', Analog 0)],
      ChipyCurrentContext = Some 0,
      module_heap = (\<lambda>r. \<lparr>mod_name = [], signals = [], devices = []\<rparr>)
                      (0 := \<lparr>mod_name = ''rc'', signals = [], devices = []\<rparr>),
      n_modules = 1,
      signal_heap = (\<lambda>r. blank_signal), n_signals = 0,
      device_heap = (\<lambda>r. blank_device), n_devices = 0,
      SigId = 0, IdCount = (\<lambda>c. 0)\<rparr>"
  by (simp add: two_modules_def eval_defs)

theorem registration_adds_one_entry_witness:
  "(\<exists>w1. AddAnalogModule ''amp'' two_modules = (Inr 1, w1)
        \<and> ChipyModulesDict w1 = [(''top'', Digital 0), (''rc'', Analog 0), (''amp'', Analog 1)])
   \<and> (\<exists>w1 n. ChipyPassive_init ChipyResistor 0 None (PyStr ''a'') (PyStr ''b'') (PyInt 100) two_modules
              = (Inr 0, w1)
        \<and> devices (module_heap w1 0) = [(n, 0)])
   \<and> (\<exists>w1 n. ChipyTransistor_init 0 (Some ''T'') (PyStr ''a'') (PyStr ''b'') (PyStr ''0'') (PyStr ''0'') []
              two_modules = (Inr 0, w1)
        \<and> devices (module_heap w1 0) = [(n, 0)])"
proof -
  let ?w = two_modules
  let ?A = "AddAnalogModule ''amp'' ?w"
  let ?P = "ChipyPassive_init ChipyResistor 0 None (PyStr ''a'') (PyStr ''b'') (PyInt 100) ?w"
  let ?T = "ChipyTransistor_init 0 (Some ''T'') (PyStr ''a'') (PyStr ''b'') (PyStr ''0'') (PyStr ''0'') [] ?w"
  have 1: "?A = (Inr 1, snd ?A)"
    by (simp add: two_modules_eq eval_defs)
  have 2: "?P = (Inr 0, snd ?P)"
    by (simp add: two_modules_eq eval_defs)
  have 3: "?T = (Inr 0, snd ?T)"
    by (simp add: two_modules_eq eval_defs)
  have d: "devices (module_heap ?w 0) = []"
    "ChipyModulesDict ?w = [(''top'', Digital 0), (''rc'', Analog 0)]"
    by (simp_all add: two_modules_eq)
  note t = registration_adds_one_entry
         [of "''amp''" ?w ChipyResistor 0 None "PyStr ''a''" "PyStr ''b''" "PyInt 100"
             0 "Some ''T''" "PyStr ''a''" "PyStr ''b''" "PyStr ''0''" "PyStr ''0''" "[]"]
  from t 1 have a: "ChipyModulesDict (snd ?A) = ChipyModulesDict ?w @ [(''amp'', Analog 1)]"
    by blast
  from t 2 obtain n where b: "devices (module_heap (snd ?P) 0) = devices (module_heap ?w 0) @ [(n, 0)]"
    by blast
  from t 3 obtain k where c: "devices (module_heap (snd ?T) 0) = devices (module_heap ?w 0) @ [(k, 0)]"
    by blast
  from a 1 have "\<exists>w1. ?A = (Inr 1, w1)
        \<and> ChipyModulesDict w1 = [(''top'', Digital 0), (''rc'', Analog 0), (''amp'', Analog 1)]"
    by (metis d(2) append_Cons append_Nil)
  moreover from b 2 have "\<exists>w1 n. ?P = (Inr 0, w1) \<and> devices (module_heap w1 0) = [(n, 0)]"
    by (metis d(1) append_Nil)
  moreover from c 3 have "\<exists>w1 n. ?T = (Inr 0, w1) \<and> devices (module_heap w1 0) = [(n, 0)]"
    by (metis d(1) append_Nil)
  ultimately show ?thesis by blast
qed

subsection \<open>\<^verbatim>\<open>AnalogSig\<close> looks signals up before it creates them\<close>

text \<open>
  C8. Given a signal object, \<^verbatim>\<open>AnalogSig\<close> returns that object and leaves the state as it
  is, unless a width is supplied that differs from the signal's, which fails the
  assertion. Given a name while some module is current, a first call
  \<^verbatim>\<open>AnalogSig(name)\<close> returns a signal, and a second call in the state the first one left
  returns the same signal and changes nothing: it finds the signal in the dictionary.
\<close>

theorem AnalogSig_idempotent:
  "AnalogSig (PySignal r) wd w =
     (if wd = None \<or> wd = Some (width (signal_heap w r)) then (Inr (PySignal r), w)
      else (Inl AssertionError, w))
   \<and> (ChipyCurrentContext w \<noteq> None \<longrightarrow>
        (\<exists>s w1. AnalogSig (PyStr name) None w = (Inr (PySignal s), w1)
               \<and> AnalogSig (PyStr name) None w1 = (Inr (PySignal s), w1)))"
  by (auto simp: ChipyAnalogSignal_init_def upd_module_def Let_def AList.update_conv'
        split: option.splits)

theorem AnalogSig_idempotent_witness:
  "ChipyCurrentContext two_modules \<noteq> None
   \<and> (\<exists>s w1. AnalogSig (PyStr ''vin'') None two_modules = (Inr (PySignal s), w1)
            \<and> AnalogSig (PyStr ''vin'') None w1 = (Inr (PySignal s), w1))"
  using AnalogSig_idempotent [of 0 None two_modules "''vin''"]
  by (simp add: two_modules_eq)

subsection \<open>Names are unique among modules and among devices, not among signals\<close>

lemma module_name_unique:
  "contains (ChipyModulesDict w) name \<Longrightarrow> fst (ChipyAnalogModule_init name w) = Inl AssertionError"
  by (simp add: ChipyAnalogModule_init_def Let_def)

lemma device_name_unique:
  "contains (devices (module_heap w m)) name
     \<Longrightarrow> fst (ChipyDevice_init cls m (Some name) w) = Inl AssertionError"
  by (simp add: ChipyDevice_init_def Let_def)

lemma signal_name_not_unique:
  "map_of (signals (module_heap w m)) name = Some old \<Longrightarrow> old < n_signals w
     \<Longrightarrow> ChipyAnalogSignal_init m name w = (s, w1)
     \<Longrightarrow> s \<noteq> old \<and> map_of (signals (module_heap w1 m)) name = Some s"
  by (auto simp: ChipyAnalogSignal_init_def upd_module_def Let_def AList.update_conv')

text \<open>
  C4. In the module \<^verbatim>\<open>rc\<close>, \<^verbatim>\<open>AddDigitalInput('a')\<close> twice: the second call does not fail an
  assertion. It returns a second signal, with another id, and the entry \<^verbatim>\<open>'a'\<close> of
  \<^verbatim>\<open>module.signals\<close> now refers to it; the first signal is no longer registered.
\<close>

theorem signal_registered_twice:
  "\<exists>w1 w2. AddDigitalInput ''a'' (PyInt 1) (PyInt 5) (PyInt 0) two_modules = (Inr (PySignal 0), w1)
      \<and> contains (signals (module_heap w1 0)) ''a''
      \<and> AddDigitalInput ''a'' (PyInt 1) (PyInt 5) (PyInt 0) w1 = (Inr (PySignal 1), w2)
      \<and> signals (module_heap w2 0) = [(''a'', 1)]
      \<and> sig_id (signal_heap w2 0) = 1 \<and> sig_id (signal_heap w2 1) = 2"
  by (simp add: two_modules_eq AddDigitalInput.simps str_split_def isspace_def
        ChipyAnalogSignal_init_def upd_module_def upd_signal_def Let_def contains_def)

subsection \<open>Multi-name calls run with the defaults\<close>

lemma str_split_word: "n \<in> set (str_split s) \<Longrightarrow> str_split n = [n]"
proof -
  have nospace: "n \<in> set (split_from cur s) \<Longrightarrow> \<forall>c\<in>set cur. \<not> isspace c
                   \<Longrightarrow> \<forall>c\<in>set n. \<not> isspace c" for cur s
  proof (induction s arbitrary: cur)
    case Nil
    then show ?case by (simp split: if_splits)
  next
    case (Cons ch s)
    show ?case
    proof (cases "isspace ch")
      case True
      with Cons.prems have "n = cur \<or> n \<in> set (split_from [] s)" by (simp split: if_splits)
      then show ?thesis using Cons.IH[of "[]"] Cons.prems(2) by auto
    next
      case False
      with Cons.prems have "n \<in> set (split_from (cur @ [ch]) s)" by simp
      then show ?thesis using Cons.IH[of "cur @ [ch]"] Cons.prems(2) False by auto
    qed
  qed
  have word: "\<forall>c\<in>set s. \<not> isspace c \<Longrightarrow> cur @ s \<noteq> [] \<Longrightarrow> split_from cur s = [cur @ s]" for cur s
    by (induction s arbitrary: cur) auto
  assume a: "n \<in> set (str_split s)"
  then have "n \<noteq> []" "\<forall>c\<in>set n. \<not> isspace c"
    using split_from_nonempty[of n "[]" s] nospace[of "[]" s] by (simp_all add: str_split_def)
  then show ?thesis using word[of n "[]"] by (simp add: str_split_def)
qed

lemma ChipyAnalogSignal_init_effect:
  "ChipyAnalogSignal_init m name w = (s, w1) \<Longrightarrow>
     s = n_signals w \<and> n_signals w1 = Suc (n_signals w) \<and> SigId w1 = SigId w + 1
     \<and> signal_heap w1 = (signal_heap w)(s := new_signal (SigId w + 1) name m)
     \<and> ChipyCurrentContext w1 = ChipyCurrentContext w"
  by (auto simp: ChipyAnalogSignal_init_def upd_module_def Let_def new_signal_def)

lemma AddDigitalInput_word:
  assumes "str_split n = [n]" "ChipyCurrentContext w = Some m" "isinstance_int ty"
  shows "\<exists>w1. AddDigitalInput n ty hv lv w = (Inr (PySignal (n_signals w)), w1)
           \<and> n_signals w1 = Suc (n_signals w) \<and> ChipyCurrentContext w1 = Some m
           \<and> signal_heap w1 = (signal_heap w)(n_signals w :=
                (new_signal (SigId w + 1) n m)\<lparr>width := int_of ty, inport := True, digital := True,
                                               high_value := hv, low_value := lv\<rparr>)"
proof -
  obtain s w0 where i: "ChipyAnalogSignal_init m n w = (s, w0)" by (cases "ChipyAnalogSignal_init m n w")
  note e = ChipyAnalogSignal_init_effect[OF i]
  show ?thesis
    using assms i e by (simp add: AddDigitalInput.simps upd_signal_def)
qed

lemma AddAnalogOutput_word:
  assumes "str_split n = [n]" "ChipyCurrentContext w = Some m" "isinstance_int ty"
  shows "\<exists>w1. AddAnalogOutput n ty w = (Inr (PySignal (n_signals w)), w1)
           \<and> n_signals w1 = Suc (n_signals w) \<and> ChipyCurrentContext w1 = Some m
           \<and> signal_heap w1 = (signal_heap w)(n_signals w :=
                (new_signal (SigId w + 1) n m)\<lparr>width := int_of ty, outport := True\<rparr>)"
proof -
  obtain s w0 where i: "ChipyAnalogSignal_init m n w = (s, w0)" by (cases "ChipyAnalogSignal_init m n w")
  note e = ChipyAnalogSignal_init_effect[OF i]
  show ?thesis
    using assms i e by (simp add: AddAnalogOutput.simps upd_signal_def)
qed

text \<open>
  A comprehension over calls that each allocate one signal and touch no other: the
  results are the next addresses in order, and each object is what its call made it.
\<close>

lemma comprehension_allocates:
  assumes step: "\<And>n w. n \<in> set ns \<Longrightarrow> ChipyCurrentContext w = Some m \<Longrightarrow>
            \<exists>w1. f n w = (Inr (PySignal (n_signals w)), w1)
               \<and> n_signals w1 = Suc (n_signals w) \<and> ChipyCurrentContext w1 = Some m
               \<and> (\<exists>i. signal_heap w1 = (signal_heap w)(n_signals w := obj n i))"
    and ctx: "ChipyCurrentContext w = Some m"
  shows "\<exists>w1. comprehension f ns w
                = (Inr (map PySignal [n_signals w ..< n_signals w + length ns]), w1)
           \<and> n_signals w1 = n_signals w + length ns
           \<and> (\<forall>r<n_signals w. signal_heap w1 r = signal_heap w r)
           \<and> (\<forall>k<length ns. \<exists>i. signal_heap w1 (n_signals w + k) = obj (ns ! k) i)"
  using assms
proof (induction ns arbitrary: w)
  case Nil
  then show ?case by simp
next
  case (Cons n ns)
  have "\<exists>w1. f n w = (Inr (PySignal (n_signals w)), w1)
               \<and> n_signals w1 = Suc (n_signals w) \<and> ChipyCurrentContext w1 = Some m
               \<and> (\<exists>i. signal_heap w1 = (signal_heap w)(n_signals w := obj n i))"
    by (rule Cons.prems(1)[OF _ Cons.prems(2)]) simp
  then obtain w1 i where
    1: "f n w = (Inr (PySignal (n_signals w)), w1)" and
    2: "n_signals w1 = Suc (n_signals w)" and
    3: "ChipyCurrentContext w1 = Some m" and
    4: "signal_heap w1 = (signal_heap w)(n_signals w := obj n i)"
    by blast
  have "\<exists>w2. comprehension f ns w1
                = (Inr (map PySignal [n_signals w1 ..< n_signals w1 + length ns]), w2)
           \<and> n_signals w2 = n_signals w1 + length ns
           \<and> (\<forall>r<n_signals w1. signal_heap w2 r = signal_heap w1 r)
           \<and> (\<forall>k<length ns. \<exists>i. signal_heap w2 (n_signals w1 + k) = obj (ns ! k) i)"
    by (rule Cons.IH) (use Cons.prems(1) 3 in auto)
  then obtain w2 where
    5: "comprehension f ns w1 = (Inr (map PySignal [n_signals w1 ..< n_signals w1 + length ns]), w2)" and
    6: "n_signals w2 = n_signals w1 + length ns" and
    7: "\<forall>r<n_signals w1. signal_heap w2 r = signal_heap w1 r" and
    8: "\<forall>k<length ns. \<exists>i. signal_heap w2 (n_signals w1 + k) = obj (ns ! k) i"
    by blast
  have a: "comprehension f (n # ns) w
             = (Inr (map PySignal [n_signals w ..< n_signals w + length (n # ns)]), w2)"
  proof -
    have u: "[n_signals w ..< n_signals w + length (n # ns)]
               = n_signals w # [n_signals w1 ..< n_signals w1 + length ns]"
      using 2 by (subst upt_rec) simp
    show ?thesis
      unfolding u by (simp only: comprehension.simps 1 5 prod.case sum.case list.map)
  qed
  have b: "n_signals w2 = n_signals w + length (n # ns)"
    using 2 6 by simp
  have c: "\<forall>r<n_signals w. signal_heap w2 r = signal_heap w r"
    using 2 4 7 by simp
  have d: "\<exists>i. signal_heap w2 (n_signals w + k) = obj ((n # ns) ! k) i" if "k < length (n # ns)" for k
  proof (cases k)
    case 0
    then show ?thesis using 2 4 7 by auto
  next
    case (Suc j)
    with that have "j < length ns" by simp
    with 8 obtain i where "signal_heap w2 (n_signals w1 + j) = obj (ns ! j) i" by blast
    with Suc 2 show ?thesis by auto
  qed
  from a b c d show ?case by blast
qed

lemma AddDigitalInput_names:
  assumes "1 < length (str_split name)" "ChipyCurrentContext w = Some m"
  shows "\<exists>w1. AddDigitalInput name ty hv lv w
               = (Inr (PyList (map PySignal [n_signals w ..< n_signals w + length (str_split name)])), w1)
           \<and> (\<forall>k<length (str_split name). \<exists>i. signal_heap w1 (n_signals w + k)
                 = (new_signal i (str_split name ! k) m)
                     \<lparr>width := 1, inport := True, digital := True,
                      high_value := PyFloat (33 / 10), low_value := PyInt 0\<rparr>)"
proof -
  let ?f = "\<lambda>n. AddDigitalInput n (PyInt 1) (PyFloat (33 / 10)) (PyInt 0)"
  let ?obj = "\<lambda>n i. (new_signal i n m)\<lparr>width := 1, inport := True, digital := True,
                      high_value := PyFloat (33 / 10), low_value := PyInt 0\<rparr>"
  have step: "\<exists>w1. ?f n v = (Inr (PySignal (n_signals v)), w1)
               \<and> n_signals w1 = Suc (n_signals v) \<and> ChipyCurrentContext w1 = Some m
               \<and> (\<exists>i. signal_heap w1 = (signal_heap v)(n_signals v := ?obj n i))"
    if "n \<in> set (str_split name)" "ChipyCurrentContext v = Some m" for n v
    using AddDigitalInput_word[OF str_split_word[OF that(1)] that(2), of "PyInt 1" "PyFloat (33 / 10)" "PyInt 0"]
    by auto
  from comprehension_allocates[of "str_split name" m ?f ?obj w, OF step assms(2)]
  obtain w1 where
    "comprehension ?f (str_split name) w
       = (Inr (map PySignal [n_signals w ..< n_signals w + length (str_split name)]), w1)"
    "\<forall>k<length (str_split name). \<exists>i. signal_heap w1 (n_signals w + k) = ?obj (str_split name ! k) i"
    by blast
  with assms(1) show ?thesis
    by (subst AddDigitalInput.simps) simp
qed

lemma AddAnalogOutput_names:
  assumes "1 < length (str_split name)" "ChipyCurrentContext w = Some m"
  shows "\<exists>w1. AddAnalogOutput name ty w
               = (Inr (PyList (map PySignal [n_signals w ..< n_signals w + length (str_split name)])), w1)
           \<and> (\<forall>k<length (str_split name). \<exists>i. signal_heap w1 (n_signals w + k)
                 = (new_signal i (str_split name ! k) m)\<lparr>width := 1, outport := True\<rparr>)"
proof -
  let ?f = "\<lambda>n. AddAnalogOutput n (PyInt 1)"
  let ?obj = "\<lambda>n i. (new_signal i n m)\<lparr>width := 1, outport := True\<rparr>"
  have step: "\<exists>w1. ?f n v = (Inr (PySignal (n_signals v)), w1)
               \<and> n_signals w1 = Suc (n_signals v) \<and> ChipyCurrentContext w1 = Some m
               \<and> (\<exists>i. signal_heap w1 = (signal_heap v)(n_signals v := ?obj n i))"
    if "n \<in> set (str_split name)" "ChipyCurrentContext v = Some m" for n v
    using AddAnalogOutput_word[OF str_split_word[OF that(1)] that(2), of "PyInt 1"]
    by auto
  from comprehension_allocates[of "str_split name" m ?f ?obj w, OF step assms(2)]
  obtain w1 where
    "comprehension ?f (str_split name) w
       = (Inr (map PySignal [n_signals w ..< n_signals w + length (str_split name)]), w1)"
    "\<forall>k<length (str_split name). \<exists>i. signal_heap w1 (n_signals w + k) = ?obj (str_split name ! k) i"
    by blast
  with assms(1) show ?thesis
    by (subst AddAnalogOutput.simps) simp
qed

text \<open>
  C10. When the name given to \<^verbatim>\<open>AddDigitalInput\<close> holds more than one word, the call does
  what it does with \<^verbatim>\<open>type=1\<close>, \<^verbatim>\<open>high_value=3.3\<close> and \<^verbatim>\<open>low_value=0\<close>, whatever arguments
  were passed; while a module is current it returns the list of the signals it created,
  one per word in order, each a digital input port named by its word, of width 1, with
  \<^verbatim>\<open>high_value\<close> 3.3 and \<^verbatim>\<open>low_value\<close> 0. \<^verbatim>\<open>AddAnalogOutput\<close> with more than one word does
  what it does with \<^verbatim>\<open>type=1\<close> and returns one output port of width 1 per word.
\<close>

theorem multi_name_uses_defaults:
  "1 < length (str_split name) \<Longrightarrow>
     AddDigitalInput name ty hv lv w
       = AddDigitalInput name (PyInt 1) (PyFloat (33 / 10)) (PyInt 0) w
     \<and> AddAnalogOutput name ty w = AddAnalogOutput name (PyInt 1) w
     \<and> (ChipyCurrentContext w \<noteq> None \<longrightarrow>
         (\<exists>w1. AddDigitalInput name ty hv lv w
                 = (Inr (PyList (map PySignal
                      [n_signals w ..< n_signals w + length (str_split name)])), w1)
              \<and> (\<forall>k<length (str_split name).
                    sig_name (signal_heap w1 (n_signals w + k)) = str_split name ! k
                    \<and> width (signal_heap w1 (n_signals w + k)) = 1
                    \<and> high_value (signal_heap w1 (n_signals w + k)) = PyFloat (33 / 10)
                    \<and> low_value (signal_heap w1 (n_signals w + k)) = PyInt 0
                    \<and> inport (signal_heap w1 (n_signals w + k))
                    \<and> digital (signal_heap w1 (n_signals w + k))))
         \<and> (\<exists>w1. AddAnalogOutput name ty w
                 = (Inr (PyList (map PySignal
                      [n_signals w ..< n_signals w + length (str_split name)])), w1)
              \<and> (\<forall>k<length (str_split name).
                    sig_name (signal_heap w1 (n_signals w + k)) = str_split name ! k
                    \<and> width (signal_heap w1 (n_signals w + k)) = 1
                    \<and> outport (signal_heap w1 (n_signals w + k)))))"
proof -
  assume multi: "1 < length (str_split name)"
  have a: "AddDigitalInput name ty hv lv w
             = AddDigitalInput name (PyInt 1) (PyFloat (33 / 10)) (PyInt 0) w"
    using multi by (simp add: AddDigitalInput.simps[of name])
  have b: "AddAnalogOutput name ty w = AddAnalogOutput name (PyInt 1) w"
    using multi by (simp add: AddAnalogOutput.simps[of name])
  have c: "\<exists>w1. AddDigitalInput name ty hv lv w
                 = (Inr (PyList (map PySignal
                      [n_signals w ..< n_signals w + length (str_split name)])), w1)
              \<and> (\<forall>k<length (str_split name).
                    sig_name (signal_heap w1 (n_signals w + k)) = str_split name ! k
                    \<and> width (signal_heap w1 (n_signals w + k)) = 1
                    \<and> high_value (signal_heap w1 (n_signals w + k)) = PyFloat (33 / 10)
                    \<and> low_value (signal_heap w1 (n_signals w + k)) = PyInt 0
                    \<and> inport (signal_heap w1 (n_signals w + k))
                    \<and> digital (signal_heap w1 (n_signals w + k)))"
    if "ChipyCurrentContext w = Some m" for m
  proof -
    from AddDigitalInput_names[OF multi that, of ty hv lv] obtain w1 where
      r: "AddDigitalInput name ty hv lv w
            = (Inr (PyList (map PySignal [n_signals w ..< n_signals w + length (str_split name)])), w1)"
      and o: "\<forall>k<length (str_split name). \<exists>i. signal_heap w1 (n_signals w + k)
                 = (new_signal i (str_split name ! k) m)
                     \<lparr>width := 1, inport := True, digital := True,
                      high_value := PyFloat (33 / 10), low_value := PyInt 0\<rparr>"
      by blast
    have "sig_name (signal_heap w1 (n_signals w + k)) = str_split name ! k
          \<and> width (signal_heap w1 (n_signals w + k)) = 1
          \<and> high_value (signal_heap w1 (n_signals w + k)) = PyFloat (33 / 10)
          \<and> low_value (signal_heap w1 (n_signals w + k)) = PyInt 0
          \<and> inport (signal_heap w1 (n_signals w + k))
          \<and> digital (signal_heap w1 (n_signals w + k))"
      if "k < length (str_split name)" for k
    proof -
      from o that obtain i where "signal_heap w1 (n_signals w + k)
                 = (new_signal i (str_split name ! k) m)
                     \<lparr>width := 1, inport := True, digital := True,
                      high_value := PyFloat (33 / 10), low_value := PyInt 0\<rparr>"
        by blast
      then show ?thesis by (simp add: new_signal_def)
    qed
    with r show ?thesis by blast
  qed
  have d: "\<exists>w1. AddAnalogOutput name ty w
                 = (Inr (PyList (map PySignal
                      [n_signals w ..< n_signals w + length (str_split name)])), w1)
              \<and> (\<forall>k<length (str_split name).
                    sig_name (signal_heap w1 (n_signals w + k)) = str_split name ! k
                    \<and> width (signal_heap w1 (n_signals w + k)) = 1
                    \<and> outport (signal_heap w1 (n_signals w + k)))"
    if "ChipyCurrentContext w = Some m" for m
  proof -
    from AddAnalogOutput_names[OF multi that, of ty] obtain w1 where
      r: "AddAnalogOutput name ty w
            = (Inr (PyList (map PySignal [n_signals w ..< n_signals w + length (str_split name)])), w1)"
      and o: "\<forall>k<length (str_split name). \<exists>i. signal_heap w1 (n_signals w + k)
                 = (new_signal i (str_split name ! k) m)\<lparr>width := 1, outport := True\<rparr>"
      by blast
    have "sig_name (signal_heap w1 (n_signals w + k)) = str_split name ! k
          \<and> width (signal_heap w1 (n_signals w + k)) = 1
          \<and> outport (signal_heap w1 (n_signals w + k))"
      if "k < length (str_split name)" for k
    proof -
      from o that obtain i where "signal_heap w1 (n_signals w + k)
                 = (new_signal i (str_split name ! k) m)\<lparr>width := 1, outport := True\<rparr>"
        by blast
      then show ?thesis by (simp add: new_signal_def)
    qed
    with r show ?thesis by blast
  qed
  from a b c d show ?thesis by blast
qed

lemma str_split_a_b: "str_split ''a b'' = [''a'', ''b'']"
  by (simp add: str_split_def isspace_def)

theorem multi_name_uses_defaults_witness:
  "1 < length (str_split ''a b'')
   \<and> AddDigitalInput ''a b'' (PyInt 8) (PyInt 5) (PyInt 1) two_modules
       = AddDigitalInput ''a b'' (PyInt 1) (PyFloat (33 / 10)) (PyInt 0) two_modules
   \<and> (\<exists>w1. AddDigitalInput ''a b'' (PyInt 8) (PyInt 5) (PyInt 1) two_modules
              = (Inr (PyList [PySignal 0, PySignal 1]), w1)
          \<and> sig_name (signal_heap w1 1) = ''b'' \<and> width (signal_heap w1 1) = 1
          \<and> high_value (signal_heap w1 1) = PyFloat (33 / 10))
   \<and> (\<exists>w1. AddAnalogOutput ''a b'' (PyInt 8) two_modules
              = (Inr (PyList [PySignal 0, PySignal 1]), w1)
          \<and> sig_name (signal_heap w1 0) = ''a'' \<and> width (signal_heap w1 0) = 1)"
proof -
  have n: "n_signals two_modules = 0" "ChipyCurrentContext two_modules \<noteq> None"
    by (simp_all add: two_modules_eq)
  have u: "[0 ..< length [''a'', ''b'']] = [0, Suc 0]"
    by (simp add: upt_rec)
  from multi_name_uses_defaults
         [of "''a b''" "PyInt 8" "PyInt 5" "PyInt 1" two_modules]
  show ?thesis
    unfolding str_split_a_b n by (simp add: n u) (metis One_nat_def lessI less_Suc_eq nth_Cons_0 nth_Cons_Suc zero_less_Suc)
qed

subsection \<open>Signal ids\<close>

lemma ids_ok_init: "ids_ok init_world"
  by (simp add: ids_ok_def init_world_def)

lemma ids_ok_ChipyAnalogSignal_init: "ids_ok w \<Longrightarrow> ids_ok (snd (ChipyAnalogSignal_init m name w))"
  by (auto simp: ids_ok_def ChipyAnalogSignal_init_def upd_module_def Let_def)

lemma ids_ok_upd_signal: "ids_ok w \<Longrightarrow> (\<And>s. sig_id (f s) = sig_id s) \<Longrightarrow> ids_ok (upd_signal r f w)"
  by (auto simp: ids_ok_def upd_signal_def)

lemma ids_ok_upd_device: "ids_ok w \<Longrightarrow> ids_ok (upd_device r f w)"
  by (auto simp: ids_ok_def upd_device_def)

lemma ids_ok_upd_module: "ids_ok w \<Longrightarrow> ids_ok (upd_module r f w)"
  by (auto simp: ids_ok_def upd_module_def)

lemma ids_ok_AnalogSig: "ids_ok w \<Longrightarrow> ids_ok (snd (AnalogSig a wd w))"
proof (cases a)
  case (PyStr n)
  assume i: "ids_ok w"
  show ?thesis
  proof (cases "ChipyCurrentContext w")
    case None
    with PyStr i show ?thesis by simp
  next
    case (Some m)
    obtain s w1 where c: "ChipyAnalogSignal_init m n w = (s, w1)"
      by (cases "ChipyAnalogSignal_init m n w")
    with ids_ok_ChipyAnalogSignal_init[OF i, of m n] have "ids_ok w1" by simp
    then have "ids_ok (upd_signal s (\<lambda>s. s\<lparr>width := x\<rparr>) w1)" for x
      by (rule ids_ok_upd_signal) simp
    with PyStr Some c i \<open>ids_ok w1\<close> show ?thesis
      by (simp split: option.splits)
  qed
qed (simp_all split: option.splits)

lemma ids_ok_ChipyDevice_init: "ids_ok w \<Longrightarrow> ids_ok (snd (ChipyDevice_init cls m nm w))"
  by (auto simp: ids_ok_def ChipyDevice_init_def upd_module_def upd_device_def Let_def
           split: option.splits)

lemma ids_ok_seq:
  assumes "ids_ok (snd (f w))" "\<And>a v. ids_ok v \<Longrightarrow> ids_ok (snd (g a v))"
  shows "ids_ok (snd (seq f g w))"
  using assms by (cases "f w") (auto simp: seq_def split: sum.splits)

lemma ids_ok_ChipyPassive_init:
  "ids_ok w \<Longrightarrow> ids_ok (snd (ChipyPassive_init cls m nm s1 s2 v w))"
  unfolding ChipyPassive_init_def
  by (intro ids_ok_seq ids_ok_ChipyDevice_init ids_ok_AnalogSig ids_ok_upd_device)
    (simp_all add: ids_ok_upd_device)

lemma ids_ok_ChipyTransistor_init:
  "ids_ok w \<Longrightarrow> ids_ok (snd (ChipyTransistor_init m nm c b e sub kw w))"
  unfolding ChipyTransistor_init_def
  by (intro ids_ok_seq ids_ok_ChipyDevice_init ids_ok_AnalogSig ids_ok_upd_device)
    (simp_all add: ids_ok_upd_device)

lemma ids_ok_comprehension:
  assumes "\<And>x v. x \<in> set xs \<Longrightarrow> ids_ok v \<Longrightarrow> ids_ok (snd (f x v))" "ids_ok w"
  shows "ids_ok (snd (comprehension f xs w))"
  using assms
proof (induction xs arbitrary: w)
  case Nil
  then show ?case by simp
next
  case (Cons x xs)
  have 1: "ids_ok (snd (f x w))" using Cons.prems by simp
  have 2: "ids_ok (snd (comprehension f xs v))" if "ids_ok v" for v
    using Cons.IH[OF _ that] Cons.prems(1) by simp
  show ?case
    using 1 2[of "snd (f x w)"] by (auto split: prod.splits sum.splits)
qed

lemma ids_ok_AddDigitalInput: "ids_ok w \<Longrightarrow> ids_ok (snd (AddDigitalInput name ty hv lv w))"
proof (induction name ty hv lv w rule: AddDigitalInput.induct)
  case (1 name ty hv lv w)
  show ?case
  proof (cases "1 < length (str_split name)")
    case True
    have "ids_ok (snd (comprehension (\<lambda>n. AddDigitalInput n (PyInt 1) (PyFloat (33 / 10)) (PyInt 0))
                         (str_split name) w))"
      by (rule ids_ok_comprehension) (use True "1.IH" "1.prems" in auto)
    with True show ?thesis
      by (subst AddDigitalInput.simps) (auto split: prod.splits sum.splits)
  next
    case False
    have "ids_ok (upd_signal s f u)"
      if "ChipyAnalogSignal_init m n w = (s', u)" "\<And>x. sig_id (f x) = sig_id x" for s s' u f m n
      using ids_ok_upd_signal[OF ids_ok_ChipyAnalogSignal_init[OF "1.prems", of m n]] that by simp
    with False "1.prems" show ?thesis
      by (subst AddDigitalInput.simps) (fastforce split: prod.splits option.splits)
  qed
qed

lemma ids_ok_AddAnalogOutput: "ids_ok w \<Longrightarrow> ids_ok (snd (AddAnalogOutput name ty w))"
proof (induction name ty w rule: AddAnalogOutput.induct)
  case (1 name ty w)
  show ?case
  proof (cases "1 < length (str_split name)")
    case True
    have "ids_ok (snd (comprehension (\<lambda>n. AddAnalogOutput n (PyInt 1)) (str_split name) w))"
      by (rule ids_ok_comprehension) (use True "1.IH" "1.prems" in auto)
    with True show ?thesis
      by (subst AddAnalogOutput.simps) (auto split: prod.splits sum.splits)
  next
    case False
    have "ids_ok (upd_signal s f u)"
      if "ChipyAnalogSignal_init m n w = (s', u)" "\<And>x. sig_id (f x) = sig_id x" for s s' u f m n
      using ids_ok_upd_signal[OF ids_ok_ChipyAnalogSignal_init[OF "1.prems", of m n]] that by simp
    with False "1.prems" show ?thesis
      by (subst AddAnalogOutput.simps) (fastforce split: prod.splits option.splits)
  qed
qed

lemma ids_ok_AddPower: "ids_ok w \<Longrightarrow> ids_ok (snd (AddPower name v w))"
proof -
  assume i: "ids_ok w"
  have "ids_ok (upd_signal s (\<lambda>x. x\<lparr>sig_power := True, power_value := v\<rparr>) u)" if "ids_ok u" for s u
    using that by (rule ids_ok_upd_signal) simp
  with i ids_ok_ChipyPassive_init[OF i] show ?thesis
    by (auto simp: AddPower_def split: option.splits prod.splits sum.splits pyval.splits)
       (metis snd_conv)+
qed

lemma ids_ok_AddGnd: "ids_ok w \<Longrightarrow> ids_ok (snd (AddGnd name w))"
proof -
  assume i: "ids_ok w"
  have "ids_ok (upd_signal s (\<lambda>x. x\<lparr>ground := True\<rparr>) u)" if "ids_ok u" for s u
    using that by (rule ids_ok_upd_signal) simp
  with i ids_ok_AnalogSig[OF i, of name "Some 1"] show ?thesis
    by (auto simp: AddGnd_def split: option.splits prod.splits sum.splits pyval.splits)
qed

lemma ids_ok_AddR: "ids_ok w \<Longrightarrow> ids_ok (snd (AddR s1 s2 v w))"
  using ids_ok_ChipyPassive_init[of w ChipyResistor _ None s1 s2 v]
  by (auto simp: AddR_def split: option.splits prod.splits sum.splits) (metis snd_conv)+

lemma ids_ok_AddC: "ids_ok w \<Longrightarrow> ids_ok (snd (AddC s1 s2 v w))"
  using ids_ok_ChipyPassive_init[of w ChipyCapacitor _ None s1 s2 v]
  by (auto simp: AddC_def split: option.splits prod.splits sum.splits) (metis snd_conv)+

lemma ids_ok_AddQ: "ids_ok w \<Longrightarrow> ids_ok (snd (AddQ c b e sub kw w))"
  using ids_ok_ChipyTransistor_init[of w _ None c b e sub kw]
  by (auto simp: AddQ_def split: option.splits prod.splits sum.splits) (metis snd_conv)+

lemma ids_ok_AddAnalogModule: "ids_ok w \<Longrightarrow> ids_ok (snd (AddAnalogModule name w))"
  by (auto simp: AddAnalogModule_def ChipyAnalogModule_init_def Let_def ids_ok_def)

lemma ids_ok_exec: "ids_ok w \<Longrightarrow> ids_ok (exec c w)"
proof (cases c)
  case (Call_Enter m)
  assume "ids_ok w"
  with Call_Enter show ?thesis by (simp add: ids_ok_def)
next
  case (Call_Exit m)
  assume "ids_ok w"
  with Call_Exit show ?thesis by (simp add: ids_ok_def)
next
  case (Call_AddModule n m)
  assume "ids_ok w"
  with Call_AddModule show ?thesis by (simp add: ids_ok_def)
qed (simp_all add: ids_ok_AddAnalogModule ids_ok_ChipyAnalogSignal_init ids_ok_AnalogSig
       ids_ok_ChipyPassive_init ids_ok_ChipyTransistor_init ids_ok_AddDigitalInput
       ids_ok_AddAnalogOutput ids_ok_AddPower ids_ok_AddGnd ids_ok_AddR ids_ok_AddC ids_ok_AddQ
       AddDigitalOutput_def AddAnalogInput_def)

lemma ids_ok_run: "ids_ok w \<Longrightarrow> ids_ok (run cs w)"
  unfolding run_def by (induction cs arbitrary: w) (simp_all add: ids_ok_exec)

text \<open>
  C9. The constructor of a signal adds one to \<^verbatim>\<open>SigId\<close> and gives the signal the new
  value as its id. So in every state a program can reach from the import of the module,
  by any sequence of calls whether they return or raise, the ids of the signals
  constructed so far are positive, increase strictly in the order of construction, and
  are pairwise distinct, over all modules.
\<close>

theorem signal_ids_increase:
  "(\<forall>s w1. ChipyAnalogSignal_init m name w = (s, w1) \<longrightarrow>
       SigId w1 = SigId w + 1 \<and> sig_id (signal_heap w1 s) = SigId w1)
   \<and> (\<forall>r<n_signals (run cs init_world). 0 < sig_id (signal_heap (run cs init_world) r))
   \<and> (\<forall>r1 r2. r1 < r2 \<and> r2 < n_signals (run cs init_world) \<longrightarrow>
         sig_id (signal_heap (run cs init_world) r1) < sig_id (signal_heap (run cs init_world) r2))
   \<and> inj_on (\<lambda>r. sig_id (signal_heap (run cs init_world) r)) {..<n_signals (run cs init_world)}"
proof -
  have "ids_ok (run cs init_world)"
    by (rule ids_ok_run[OF ids_ok_init])
  then have i: "\<forall>r<n_signals (run cs init_world). sig_id (signal_heap (run cs init_world) r) = int r + 1"
    by (simp add: ids_ok_def)
  have a: "\<forall>s w1. ChipyAnalogSignal_init m name w = (s, w1) \<longrightarrow>
       SigId w1 = SigId w + 1 \<and> sig_id (signal_heap w1 s) = SigId w1"
    by (auto simp: ChipyAnalogSignal_init_def upd_module_def Let_def)
  have b: "\<forall>r<n_signals (run cs init_world). 0 < sig_id (signal_heap (run cs init_world) r)"
    using i by simp
  have c: "\<forall>r1 r2. r1 < r2 \<and> r2 < n_signals (run cs init_world) \<longrightarrow>
         sig_id (signal_heap (run cs init_world) r1) < sig_id (signal_heap (run cs init_world) r2)"
    using i by simp
  have d: "inj_on (\<lambda>r. sig_id (signal_heap (run cs init_world) r)) {..<n_signals (run cs init_world)}"
    using i by (auto simp: inj_on_def)
  from a b c d show ?thesis by blast
qed

lemma run_append: "run (xs @ ys) w = run ys (run xs w)"
  by (simp add: run_def)

lemma two_signals_count: "n_signals (run two_signals init_world) = 2"
proof -
  have "run two_signals init_world
          = run [Call_AnalogSig (PyStr ''a'') None, Call_AnalogSig (PyStr ''b'') None] two_modules"
    unfolding two_signals_def two_modules_def run_append[symmetric] by simp
  also have "n_signals \<dots> = 2"
    by (simp add: two_modules_eq run_def ChipyAnalogSignal_init_def upd_module_def Let_def)
  finally show ?thesis .
qed

theorem signal_ids_increase_witness:
  "(0::nat) < 1 \<and> 1 < n_signals (run two_signals init_world)
   \<and> 0 < sig_id (signal_heap (run two_signals init_world) 0)
   \<and> sig_id (signal_heap (run two_signals init_world) 0)
       < sig_id (signal_heap (run two_signals init_world) 1)
   \<and> (\<exists>w1. ChipyAnalogSignal_init 0 ''x'' init_world = (0, w1)
          \<and> SigId w1 = SigId init_world + 1 \<and> sig_id (signal_heap w1 0) = SigId w1)"
proof -
  let ?w = "run two_signals init_world"
  have e: "ChipyAnalogSignal_init 0 ''x'' init_world = (0, snd (ChipyAnalogSignal_init 0 ''x'' init_world))"
    by (simp add: ChipyAnalogSignal_init_def init_world_def Let_def)
  note t = signal_ids_increase[of 0 "''x''" init_world two_signals]
  from t e have a: "SigId (snd (ChipyAnalogSignal_init 0 ''x'' init_world)) = SigId init_world + 1
      \<and> sig_id (signal_heap (snd (ChipyAnalogSignal_init 0 ''x'' init_world)) 0)
          = SigId (snd (ChipyAnalogSignal_init 0 ''x'' init_world))"
    by blast
  from t have b: "\<forall>r<n_signals ?w. 0 < sig_id (signal_heap ?w r)"
    by blast
  from t have c: "\<forall>r1 r2. r1 < r2 \<and> r2 < n_signals ?w \<longrightarrow>
         sig_id (signal_heap ?w r1) < sig_id (signal_heap ?w r2)"
    by blast
  have n: "(0::nat) < 1" "1 < n_signals ?w" "0 < n_signals ?w"
    by (simp_all add: two_signals_count)
  from b n have b0: "0 < sig_id (signal_heap ?w 0)" by blast
  from c n have c0: "sig_id (signal_heap ?w 0) < sig_id (signal_heap ?w 1)" by blast
  from a e n b0 c0 show ?thesis by metis
qed

subsection \<open>The shape of the netlist\<close>

lemma pin_id_signal: "is_signal p \<Longrightarrow> \<exists>i. pin_id w p = Inr i"
  by (cases "(w, p)" rule: pin_id.cases) auto

lemma connections_complete: "device_complete d \<Longrightarrow> \<exists>pins. connections w d = Inr pins"
proof -
  assume c: "device_complete d"
  show ?thesis
  proof (cases "is_passive (dev_class d)")
    case True
    with c obtain l r where "pin_id w (sig1 d) = Inr l" "pin_id w (sig2 d) = Inr r"
      using pin_id_signal[of "sig1 d" w] pin_id_signal[of "sig2 d" w]
      by (auto simp: device_complete_def)
    with True show ?thesis by (simp add: connections_def)
  next
    case False
    with c obtain x y z where "pin_id w (pin_c d) = Inr x" "pin_id w (pin_b d) = Inr y"
        "pin_id w (pin_e d) = Inr z"
      using pin_id_signal[of "pin_c d" w] pin_id_signal[of "pin_b d" w] pin_id_signal[of "pin_e d" w]
      by (auto simp: device_complete_def)
    with False show ?thesis by (simp add: connections_def)
  qed
qed

lemma connections_distinct: "connections w d = Inr pins \<Longrightarrow> distinct (map fst pins)"
  by (auto simp: connections_def split: if_splits sum.splits)

lemma netlist_devices_returns:
  "list_all (\<lambda>(name, dev). device_complete (device_heap w dev)) ds
     \<Longrightarrow> \<exists>cells'. netlist_devices w ds cells = Inr cells'"
proof (induction ds arbitrary: cells)
  case Nil
  then show ?case by simp
next
  case (Cons a ds)
  obtain ref dev where a: "a = (ref, dev)" by (cases a)
  with Cons.prems have c: "device_complete (device_heap w dev)" by simp
  from connections_complete[OF c] obtain pins where "connections w (device_heap w dev) = Inr pins"
    by blast
  with a Cons show ?case by (simp add: Let_def split: option.splits)
qed

lemma fold_update_distinct:
  "distinct (map fst pins) \<Longrightarrow> set (map fst pins) \<inter> set (map fst acc) = {}
     \<Longrightarrow> fold (\<lambda>(pin, net) c. AList.update pin (f net) c) pins acc
           = acc @ map (\<lambda>(pin, net). (pin, f net)) pins"
proof (induction pins arbitrary: acc)
  case Nil
  then show ?case by simp
next
  case (Cons a pins)
  obtain pin net where a: "a = (pin, net)" by (cases a)
  with Cons.prems have f: "\<not> contains acc pin" by (auto simp: contains_def)
  have "set (map fst pins) \<inter> set (map fst (acc @ [(pin, f net)])) = {}"
    using Cons.prems a by auto
  with Cons.IH[of "acc @ [(pin, f net)]"] Cons.prems a f show ?case
    by (simp add: update_fresh)
qed

lemma yosys_cell_entry: "distinct (map fst pins) \<Longrightarrow> yosys_cell ty pins v = cell_entry ty pins v"
  using fold_update_distinct[of pins "[]" "\<lambda>net. PyList [PyInt net]"]
  by (simp add: yosys_cell_def cell_entry_def Let_def)

lemma in_update: "(k', c) \<in> set (AList.update k v al) \<Longrightarrow> (k', c) = (k, v) \<or> (k', c) \<in> set al"
  by (induction al) (auto split: if_splits)

lemma netlist_devices_entries:
  assumes "netlist_devices w ds cells = Inr cells'"
    and "set ds \<subseteq> set (devices (module_heap w self))"
    and "\<forall>(k, c)\<in>set cells. device_cell w self k c"
  shows "\<forall>(k, c)\<in>set cells'. device_cell w self k c"
  using assms
proof (induction ds arbitrary: cells)
  case Nil
  then show ?case by simp
next
  case (Cons a ds)
  obtain ref dev where a: "a = (ref, dev)" by (cases a)
  show ?case
  proof (cases "Skin (dev_class (device_heap w dev))")
    case None
    with Cons a show ?thesis by (simp add: Let_def)
  next
    case (Some ty)
    with Cons.prems(1) a obtain pins where
      p: "connections w (device_heap w dev) = Inr pins" and
      r: "netlist_devices w ds
            (AList.update ref (yosys_cell ty pins (value_of (device_heap w dev))) cells) = Inr cells'"
      by (auto simp: Let_def split: sum.splits)
    have d: "device_cell w self ref (yosys_cell ty pins (value_of (device_heap w dev)))"
      using Cons.prems(2) a Some p yosys_cell_entry[OF connections_distinct[OF p]]
      by (auto simp: device_cell_def)
    have "\<forall>(k, c)\<in>set (AList.update ref (yosys_cell ty pins (value_of (device_heap w dev))) cells).
            device_cell w self k c"
      using d Cons.prems(3) by (auto dest: in_update)
    with Cons.IH[OF r] Cons.prems(2) show ?thesis by simp
  qed
qed

lemma netlist_signals_entries:
  assumes "netlist_signals w ss (ports, cells) = (ports', cells')"
    and "set ss \<subseteq> set (signals (module_heap w self))"
    and "\<forall>(k, c)\<in>set cells. device_cell w self k c \<or> signal_cell w self k c"
    and "\<forall>(k, p)\<in>set ports. signal_port w self k p"
  shows "(\<forall>(k, c)\<in>set cells'. device_cell w self k c \<or> signal_cell w self k c)
         \<and> (\<forall>(k, p)\<in>set ports'. signal_port w self k p)"
  using assms
proof (induction ss arbitrary: ports cells)
  case Nil
  then show ?case by simp
next
  case (Cons a ss)
  obtain name r where a: "a = (name, r)" by (cases a)
  obtain ports1 cells1 where
    s: "netlist_signal name (signal_heap w r) (ports, cells) = (ports1, cells1)"
    by (cases "netlist_signal name (signal_heap w r) (ports, cells)")
  have m: "(name, r) \<in> set (signals (module_heap w self))"
    using Cons.prems(2) a by simp
  have y: "yosys_cell ty [(pin, i)] v = cell_entry ty [(pin, i)] v" for ty pin i v
    by (rule yosys_cell_entry) simp
  have c1: "\<forall>(k, c)\<in>set cells1. device_cell w self k c \<or> signal_cell w self k c"
    using s m Cons.prems(3)
    by (auto simp: netlist_signal_def y signal_cell_def split: if_splits dest!: in_update)
  have p1: "\<forall>(k, p)\<in>set ports1. signal_port w self k p"
    using s m Cons.prems(4)
    by (auto simp: netlist_signal_def signal_port_def port_entry_def split: if_splits dest!: in_update)
  from Cons.prems(1) a s have "netlist_signals w ss (ports1, cells1) = (ports', cells')"
    by simp
  from Cons.IH[OF this _ c1 p1] Cons.prems(2) show ?case by simp
qed

lemma netlist_returns: "constructed w self \<Longrightarrow> \<exists>out. netlist w self = Inr out"
proof -
  assume "constructed w self"
  with netlist_devices_returns[of w "devices (module_heap w self)" "[]"]
  obtain cells0 where "netlist_devices w (devices (module_heap w self)) [] = Inr cells0"
    by (auto simp: constructed_def)
  then show ?thesis by (simp add: netlist_def split: prod.splits)
qed

text \<open>
  C1. \<^verbatim>\<open>netlist()\<close> returns whenever every device of the module was constructed to
  its end. What it returns is a dictionary with exactly the keys \<^verbatim>\<open>ports\<close> and \<^verbatim>\<open>cells\<close>.
  Every entry of \<^verbatim>\<open>cells\<close> is a cell entry: that of a device registered under the key,
  with the device's skin as type, its connections and its value, or a \<^verbatim>\<open>power\<close> or
  \<^verbatim>\<open>ground\<close> cell of a signal registered under the key. Every entry of \<^verbatim>\<open>ports\<close> is a
  port entry, \<^verbatim>\<open>input\<close> or \<^verbatim>\<open>output\<close>, with the id of a signal registered under the key.
\<close>

theorem netlist_shape:
  "(constructed w self \<longrightarrow> (\<exists>out. netlist w self = Inr out))
   \<and> (\<forall>out. netlist w self = Inr out \<longrightarrow>
        (\<exists>ports cells. out = PyDict [(''ports'', PyDict ports), (''cells'', PyDict cells)]
           \<and> (\<forall>(k, c)\<in>set cells. device_cell w self k c \<or> signal_cell w self k c)
           \<and> (\<forall>(k, p)\<in>set ports. signal_port w self k p)))"
proof -
  have a: "\<exists>out. netlist w self = Inr out" if "constructed w self"
    using that by (rule netlist_returns)
  have b: "\<exists>ports cells. out = PyDict [(''ports'', PyDict ports), (''cells'', PyDict cells)]
           \<and> (\<forall>(k, c)\<in>set cells. device_cell w self k c \<or> signal_cell w self k c)
           \<and> (\<forall>(k, p)\<in>set ports. signal_port w self k p)"
    if "netlist w self = Inr out" for out
  proof -
    from that obtain cells0 ports cells where
      d: "netlist_devices w (devices (module_heap w self)) [] = Inr cells0" and
      s: "netlist_signals w (signals (module_heap w self)) ([], cells0) = (ports, cells)" and
      o: "out = PyDict [(''ports'', PyDict ports), (''cells'', PyDict cells)]"
      by (auto simp: netlist_def split: sum.splits prod.splits)
    from netlist_devices_entries[OF d] have "\<forall>(k, c)\<in>set cells0. device_cell w self k c"
      by simp
    then have "\<forall>(k, c)\<in>set cells0. device_cell w self k c \<or> signal_cell w self k c"
      by auto
    from netlist_signals_entries[OF s _ this] o show ?thesis by simp
  qed
  from a b show ?thesis by blast
qed

lemma rc_constructed: "constructed rc_world 0"
  by (simp add: constructed_def rc_world_def rc_devices_def device_complete_def blank_device_def)

lemma rc_netlist: "netlist rc_world 0 = Inr rc_netlist"
  by (simp add: netlist_def rc_world_def rc_devices_def rc_signals_def rc_netlist_def
        blank_device_def new_signal_def connections_def value_of_def yosys_cell_def
        netlist_signal_def cell_entry_def port_entry_def Let_def)

theorem netlist_shape_witness:
  "constructed rc_world 0 \<and> netlist rc_world 0 = Inr rc_netlist
   \<and> (device_cell rc_world 0 ''C1'' (cell_entry ''capacitor'' [(''L'', 4), (''R'', 2)] PyNone)
       \<or> signal_cell rc_world 0 ''C1'' (cell_entry ''capacitor'' [(''L'', 4), (''R'', 2)] PyNone))
   \<and> signal_port rc_world 0 ''din'' (port_entry ''input'' 3)"
proof -
  from netlist_shape[of rc_world 0] rc_netlist obtain ports cells where
    o: "rc_netlist = PyDict [(''ports'', PyDict ports), (''cells'', PyDict cells)]" and
    c: "\<forall>(k, c)\<in>set cells. device_cell rc_world 0 k c \<or> signal_cell rc_world 0 k c" and
    p: "\<forall>(k, p)\<in>set ports. signal_port rc_world 0 k p"
    by blast
  from o have "(''C1'', cell_entry ''capacitor'' [(''L'', 4), (''R'', 2)] PyNone) \<in> set cells"
    "(''din'', port_entry ''input'' 3) \<in> set ports"
    by (auto simp: rc_netlist_def)
  with c p rc_constructed rc_netlist show ?thesis by blast
qed

lemmas rc_eval = rc_calls_def eval_defs AddPower_def AddGnd_def AddR_def AddC_def
  AddDigitalInput.simps AddAnalogOutput.simps str_split_def isspace_def
  rc_world_def rc_signals_def rc_devices_def new_signal_def blank_device_def

lemma rc_world_reached: "run rc_calls init_world = rc_world"
  by (rule world.equality; (rule ext)?; simp add: rc_eval)

subsection \<open>What each signal contributes to the netlist\<close>

lemma netlist_signals_append:
  "netlist_signals w (xs @ ys) pc = netlist_signals w ys (netlist_signals w xs pc)"
  by (induction w xs pc rule: netlist_signals.induct) simp_all

lemma netlist_signal_other:
  assumes "netlist_signal name s (ports, cells) = (ports1, cells1)" "k \<noteq> name"
  shows "map_of ports1 k = map_of ports k \<and> map_of cells1 k = map_of cells k"
  using assms by (auto simp: netlist_signal_def AList.update_conv' split: if_splits)

lemma netlist_signals_other:
  assumes "netlist_signals w ss (ports, cells) = (ports', cells')" "k \<notin> fst ` set ss"
  shows "map_of ports' k = map_of ports k \<and> map_of cells' k = map_of cells k"
  using assms
proof (induction ss arbitrary: ports cells)
  case Nil
  then show ?case by simp
next
  case (Cons a ss)
  obtain name r where a: "a = (name, r)" by (cases a)
  obtain ports1 cells1 where
    s: "netlist_signal name (signal_heap w r) (ports, cells) = (ports1, cells1)"
    by (cases "netlist_signal name (signal_heap w r) (ports, cells)")
  from Cons.prems a have "k \<noteq> name" "k \<notin> fst ` set ss" by auto
  with Cons.IH[of ports1 cells1] Cons.prems(1) a s netlist_signal_other[OF s] show ?case
    by simp
qed

lemma netlist_signal_at:
  assumes "netlist_signal name s (ports, cells) = (ports1, cells1)"
  shows "(map_of ports1 name, map_of cells1 name)
           = contribution name s (map_of ports name, map_of cells name)"
proof -
  have y: "yosys_cell ty [(pin, i)] v = cell_entry ty [(pin, i)] v" for ty pin i v
    by (rule yosys_cell_entry) simp
  from assms show ?thesis
    by (auto simp: netlist_signal_def contribution_def y port_entry_def AList.update_conv'
             split: if_splits)
qed

lemma netlist_signals_at:
  assumes "netlist_signals w ss (ports, cells) = (ports', cells')"
    and "distinct (map fst ss)" "(name, r) \<in> set ss"
  shows "(map_of ports' name, map_of cells' name)
           = contribution name (signal_heap w r) (map_of ports name, map_of cells name)"
proof -
  from assms(3) obtain xs ys where ss: "ss = xs @ (name, r) # ys"
    by (auto simp: in_set_conv_decomp)
  with assms(2) have nx: "name \<notin> fst ` set xs" and ny: "name \<notin> fst ` set ys"
    by auto
  obtain p1 c1 where 1: "netlist_signals w xs (ports, cells) = (p1, c1)"
    by (cases "netlist_signals w xs (ports, cells)")
  obtain p2 c2 where 2: "netlist_signal name (signal_heap w r) (p1, c1) = (p2, c2)"
    by (cases "netlist_signal name (signal_heap w r) (p1, c1)")
  from assms(1) ss 1 2 have 3: "netlist_signals w ys (p2, c2) = (ports', cells')"
    by (simp add: netlist_signals_append)
  from netlist_signals_other[OF 1 nx] netlist_signal_at[OF 2] netlist_signals_other[OF 3 ny]
  show ?thesis by simp
qed

text \<open>
  C3. In the dictionary that \<^verbatim>\<open>netlist()\<close> returns, what stands under the name of a
  signal of the module is decided by the first of its flags \<^verbatim>\<open>power\<close>, \<^verbatim>\<open>ground\<close>,
  \<^verbatim>\<open>inport\<close>, \<^verbatim>\<open>outport\<close> that is set: a \<^verbatim>\<open>power\<close> cell with pin \<^verbatim>\<open>VCC\<close> and the name as
  value, a \<^verbatim>\<open>ground\<close> cell with pin \<^verbatim>\<open>GND\<close> and the name as value, an input port, or an
  output port, each with the signal's id, and nothing else from the signal: the other of
  the two dictionaries has no port under the name, or the cell that the loop over the
  devices had left there. With no flag set the signal adds nothing.
\<close>

theorem netlist_signal_contribution:
  assumes "distinct (map fst (signals (module_heap w self)))"
    and "(name, r) \<in> set (signals (module_heap w self))"
    and "netlist w self = Inr out"
  shows "\<exists>ports cells cells0.
           out = PyDict [(''ports'', PyDict ports), (''cells'', PyDict cells)]
           \<and> netlist_devices w (devices (module_heap w self)) [] = Inr cells0
           \<and> (if sig_power (signal_heap w r) then
                map_of cells name
                  = Some (cell_entry ''power'' [(''VCC'', sig_id (signal_heap w r))] (PyStr name))
                \<and> map_of ports name = None
              else if ground (signal_heap w r) then
                map_of cells name
                  = Some (cell_entry ''ground'' [(''GND'', sig_id (signal_heap w r))] (PyStr name))
                \<and> map_of ports name = None
              else if inport (signal_heap w r) then
                map_of ports name = Some (port_entry ''input'' (sig_id (signal_heap w r)))
                \<and> map_of cells name = map_of cells0 name
              else if outport (signal_heap w r) then
                map_of ports name = Some (port_entry ''output'' (sig_id (signal_heap w r)))
                \<and> map_of cells name = map_of cells0 name
              else map_of ports name = None \<and> map_of cells name = map_of cells0 name)"
proof -
  from assms(3) obtain cells0 ports cells where
    d: "netlist_devices w (devices (module_heap w self)) [] = Inr cells0" and
    s: "netlist_signals w (signals (module_heap w self)) ([], cells0) = (ports, cells)" and
    o: "out = PyDict [(''ports'', PyDict ports), (''cells'', PyDict cells)]"
    by (auto simp: netlist_def split: sum.splits prod.splits)
  from netlist_signals_at[OF s assms(1) assms(2)]
  have "(map_of ports name, map_of cells name)
          = contribution name (signal_heap w r) (None, map_of cells0 name)"
    by simp
  with d o show ?thesis
    by (auto simp: contribution_def split: if_splits)
qed

theorem netlist_signal_contribution_witness:
  "distinct (map fst (signals (module_heap rc_world 0)))
   \<and> (''vcc'', 0) \<in> set (signals (module_heap rc_world 0))
   \<and> netlist rc_world 0 = Inr rc_netlist
   \<and> sig_power (signal_heap rc_world 0)
   \<and> (\<exists>ports cells. rc_netlist = PyDict [(''ports'', PyDict ports), (''cells'', PyDict cells)]
         \<and> map_of cells ''vcc'' = Some (cell_entry ''power'' [(''VCC'', 1)] (PyStr ''vcc''))
         \<and> map_of ports ''vcc'' = None)"
proof -
  have a: "distinct (map fst (signals (module_heap rc_world 0)))"
    "(''vcc'', 0) \<in> set (signals (module_heap rc_world 0))"
    "sig_power (signal_heap rc_world 0)" "sig_id (signal_heap rc_world 0) = 1"
    by (simp_all add: rc_world_def rc_signals_def new_signal_def)
  from netlist_signal_contribution[OF a(1) a(2) rc_netlist] a rc_netlist
  show ?thesis by auto
qed

subsection \<open>The simulation model\<close>

lemma pin_eispice_model_signal: "is_signal p \<Longrightarrow> \<exists>n. pin_eispice_model w p = Inr n"
  by (cases "(w, p)" rule: pin_eispice_model.cases) auto

lemma device_eispice_model_complete:
  assumes c: "device_complete d"
  shows "\<exists>m. device_eispice_model w d = Inr m"
proof (cases "is_passive (dev_class d)")
  case True
  with c obtain a b where "pin_eispice_model w (sig1 d) = Inr a" "pin_eispice_model w (sig2 d) = Inr b"
    using pin_eispice_model_signal[of "sig1 d" w] pin_eispice_model_signal[of "sig2 d" w]
    by (auto simp: device_complete_def)
  with True show ?thesis by (simp add: device_eispice_model_def)
next
  case False
  with c obtain x y z kw where "pin_eispice_model w (pin_c d) = Inr x"
      "pin_eispice_model w (pin_b d) = Inr y" "pin_eispice_model w (pin_e d) = Inr z"
      "model d = Some kw"
    using pin_eispice_model_signal[of "pin_c d" w] pin_eispice_model_signal[of "pin_b d" w]
      pin_eispice_model_signal[of "pin_e d" w]
    by (auto simp: device_complete_def)
  with False show ?thesis by (simp add: device_eispice_model_def)
qed

lemma eispice_devices_returns:
  "list_all (\<lambda>(name, dev). device_complete (device_heap w dev)) ds
     \<Longrightarrow> \<exists>cct'. eispice_devices w ds cct = Inr cct'"
proof (induction ds arbitrary: cct)
  case Nil
  then show ?case by simp
next
  case (Cons a ds)
  obtain name dev where a: "a = (name, dev)" by (cases a)
  with Cons.prems have "device_complete (device_heap w dev)" by simp
  from device_eispice_model_complete[OF this] obtain m where
    "device_eispice_model w (device_heap w dev) = Inr m" by blast
  with a Cons show ?case by simp
qed

lemma eispice_devices_trace:
  "eispice_devices w ds cct = Inr cct' \<Longrightarrow>
     cct_name cct' = cct_name cct
     \<and> (\<exists>attrs. list_all2 (device_attribute w) ds attrs
                \<and> cct_setattr cct' = cct_setattr cct @ attrs)"
proof (induction ds arbitrary: cct)
  case Nil
  then show ?case by simp
next
  case (Cons a ds)
  obtain name dev where a: "a = (name, dev)" by (cases a)
  with Cons.prems obtain m where
    m: "device_eispice_model w (device_heap w dev) = Inr m" and
    r: "eispice_devices w ds (cct\<lparr>cct_setattr := cct_setattr cct @ [(name, m)]\<rparr>) = Inr cct'"
    by (auto split: sum.splits)
  from Cons.IH[OF r] obtain attrs where
    n: "cct_name cct' = cct_name cct" and
    l: "list_all2 (device_attribute w) ds attrs" and
    s: "cct_setattr cct' = (cct_setattr cct @ [(name, m)]) @ attrs"
    by auto
  have "list_all2 (device_attribute w) (a # ds) ((name, m) # attrs)"
    using a m l by (simp add: device_attribute_def)
  with n s show ?case by (metis append.assoc append_Cons append_Nil)
qed

lemma eispice_signals_trace:
  "eispice_signals w ss cct = cct\<lparr>cct_setattr := cct_setattr cct @ digital_inputs w ss\<rparr>"
  by (induction w ss cct rule: eispice_signals.induct) (simp_all add: digital_inputs_def Let_def)

text \<open>
  C6. \<^verbatim>\<open>eispice_model()\<close> returns whenever every device of the module was constructed to
  its end. The circuit it returns has the name of the module; the attributes set on it
  are, in order, one per entry of \<^verbatim>\<open>devices\<close>, under the entry's name and holding the
  model of its device, and then one per entry of \<^verbatim>\<open>signals\<close> whose signal is both digital
  and an input port, under the entry's name and holding an \<^verbatim>\<open>EispiceDigitalInput\<close> made
  from the signal's name, \<^verbatim>\<open>high_value\<close> and \<^verbatim>\<open>low_value\<close>. The model of a signal is
  \<^verbatim>\<open>eispice.GND\<close> when it is a ground and its name otherwise.
\<close>

theorem eispice_model_attributes:
  "(constructed w self \<longrightarrow> (\<exists>cct. eispice_model w self = Inr cct))
   \<and> (\<forall>cct. eispice_model w self = Inr cct \<longrightarrow>
        cct_name cct = mod_name (module_heap w self)
        \<and> (\<exists>attrs. list_all2 (device_attribute w) (devices (module_heap w self)) attrs
              \<and> cct_setattr cct = attrs @ digital_inputs w (signals (module_heap w self))))
   \<and> signal_eispice_model s = (if ground s then GND else Node (sig_name s))"
proof -
  have a: "\<exists>cct. eispice_model w self = Inr cct" if "constructed w self"
  proof -
    from that eispice_devices_returns[of w "devices (module_heap w self)"]
    obtain cct where "eispice_devices w (devices (module_heap w self))
                        \<lparr>cct_name = mod_name (module_heap w self), cct_setattr = []\<rparr> = Inr cct"
      unfolding constructed_def by blast
    then show ?thesis by (simp add: eispice_model_def)
  qed
  have b: "cct_name cct = mod_name (module_heap w self)
        \<and> (\<exists>attrs. list_all2 (device_attribute w) (devices (module_heap w self)) attrs
              \<and> cct_setattr cct = attrs @ digital_inputs w (signals (module_heap w self)))"
    if "eispice_model w self = Inr cct" for cct
  proof -
    from that obtain c0 where
      d: "eispice_devices w (devices (module_heap w self))
            \<lparr>cct_name = mod_name (module_heap w self), cct_setattr = []\<rparr> = Inr c0" and
      c: "cct = eispice_signals w (signals (module_heap w self)) c0"
      by (auto simp: eispice_model_def split: sum.splits)
    from eispice_devices_trace[OF d] c show ?thesis
      by (auto simp: eispice_signals_trace)
  qed
  from a b show ?thesis by (simp add: signal_eispice_model_def)
qed

lemma rc_circuit: "eispice_model rc_world 0 = Inr rc_circuit"
  by (simp add: eispice_model_def rc_world_def rc_devices_def rc_signals_def rc_circuit_def
        blank_device_def new_signal_def device_eispice_model_def signal_eispice_model_def
        value_of_def EispiceDigitalInput_init_def Let_def)

theorem eispice_model_attributes_witness:
  "constructed rc_world 0 \<and> eispice_model rc_world 0 = Inr rc_circuit
   \<and> cct_name rc_circuit = mod_name (module_heap rc_world 0)
   \<and> (\<exists>attrs. list_all2 (device_attribute rc_world) (devices (module_heap rc_world 0)) attrs
         \<and> cct_setattr rc_circuit = attrs @ digital_inputs rc_world (signals (module_heap rc_world 0)))
   \<and> signal_eispice_model (signal_heap rc_world 1) = GND"
proof -
  have g: "ground (signal_heap rc_world 1)"
    by (simp add: rc_world_def rc_signals_def new_signal_def)
  from eispice_model_attributes[of rc_world 0 "signal_heap rc_world 1"] rc_constructed rc_circuit g
  show ?thesis by simp
qed

subsection \<open>\<^verbatim>\<open>WriteNetlist\<close>\<close>

lemma netlist_modules_returns:
  "\<forall>(n, obj)\<in>set ms. \<forall>m. obj = Analog m \<longrightarrow> constructed w m
     \<Longrightarrow> \<exists>res. netlist_modules w ms acc = Inr res"
proof (induction w ms acc rule: netlist_modules.induct)
  case (1 w modules)
  then show ?case by simp
next
  case (2 w modname m ms modules)
  from 2(2) have "constructed w m" by simp
  with netlist_returns[of w m] obtain out where o: "netlist w m = Inr out" by blast
  with 2(1)[OF o] 2(2) show ?case by simp
next
  case (3 w modname m ms modules)
  then show ?case by simp
qed

lemma netlist_modules_lookup:
  "netlist_modules w ms acc = Inr res \<Longrightarrow> distinct (map fst ms) \<Longrightarrow>
     map_option Inr (map_of res n)
       = (case map_of ms n of
            Some (Analog m) \<Rightarrow> Some (netlist w m)
          | Some (Digital m) \<Rightarrow> map_option Inr (map_of acc n)
          | None \<Rightarrow> map_option Inr (map_of acc n))"
proof (induction w ms acc arbitrary: res rule: netlist_modules.induct)
  case (1 w modules)
  then show ?case by simp
next
  case (2 w modname m ms modules)
  from 2(2) obtain x where x: "netlist w m = Inr x" and
    r: "netlist_modules w ms (AList.update modname x modules) = Inr res"
    by (auto split: sum.splits)
  from 2(3) have d: "distinct (map fst ms)" and f: "map_of ms modname = None"
    by (auto simp: map_of_eq_None_iff)
  from 2(1)[OF x r d] f x show ?case
    by (auto simp: AList.update_conv' split: option.splits modobj.splits)
next
  case (3 w modname m ms modules)
  from 3(3) have d: "distinct (map fst ms)" and f: "map_of ms modname = None"
    by (auto simp: map_of_eq_None_iff)
  from 3(1)[OF _ d] 3(2) f show ?case
    by (auto split: option.splits modobj.splits)
qed

text \<open>
  C2. Whenever \<^verbatim>\<open>WriteNetlist(f)\<close> returns, it has appended to \<^verbatim>\<open>f\<close> one line: the text that
  \<^verbatim>\<open>json.dumps\<close> gives, with \<^verbatim>\<open>sort_keys=True\<close>, \<^verbatim>\<open>indent=2\<close> and the separators \<^verbatim>\<open>','\<close> and
  \<^verbatim>\<open>': '\<close>, for a dictionary with the single key \<^verbatim>\<open>modules\<close>. Under that key stands a
  dictionary that has, for every name that \<^verbatim>\<open>ChipyModulesDict\<close> maps to an analog module,
  what \<^verbatim>\<open>netlist()\<close> of that module returns, and nothing for any other name. It returns
  whenever every device of every registered analog module was constructed to its end and
  \<^verbatim>\<open>json.dumps\<close> returns.
\<close>

theorem WriteNetlist_modules:
  "distinct (map fst (ChipyModulesDict w)) \<Longrightarrow>
     (\<forall>out. WriteNetlist dumps f w = Inr out \<longrightarrow>
        (\<exists>modules j.
            dumps (PyDict [(''modules'', PyDict modules)]) True 2 ('','', '': '') = Inr j
            \<and> out = f @ j @ [CHR 0x0A]
            \<and> (\<forall>n. map_option Inr (map_of modules n)
                     = (case map_of (ChipyModulesDict w) n of
                          Some (Analog m) \<Rightarrow> Some (netlist w m)
                        | Some (Digital m) \<Rightarrow> None
                        | None \<Rightarrow> None))))
     \<and> ((\<forall>n m. map_of (ChipyModulesDict w) n = Some (Analog m) \<longrightarrow> constructed w m)
          \<and> (\<forall>obj. \<exists>j. dumps obj True 2 ('','', '': '') = Inr j)
          \<longrightarrow> (\<exists>out. WriteNetlist dumps f w = Inr out))"
proof -
  assume d: "distinct (map fst (ChipyModulesDict w))"
  have a: "\<exists>modules j.
            dumps (PyDict [(''modules'', PyDict modules)]) True 2 ('','', '': '') = Inr j
            \<and> out = f @ j @ [CHR 0x0A]
            \<and> (\<forall>n. map_option Inr (map_of modules n)
                     = (case map_of (ChipyModulesDict w) n of
                          Some (Analog m) \<Rightarrow> Some (netlist w m)
                        | Some (Digital m) \<Rightarrow> None
                        | None \<Rightarrow> None))"
    if "WriteNetlist dumps f w = Inr out" for out
  proof -
    from that obtain modules j where
      m: "netlist_modules w (ChipyModulesDict w) [] = Inr modules" and
      j: "dumps (PyDict [(''modules'', PyDict modules)]) True 2 ('','', '': '') = Inr j" and
      o: "out = f @ j @ [CHR 0x0A]"
      by (auto simp: WriteNetlist_def split: sum.splits)
    have "map_option Inr (map_of modules n)
                     = (case map_of (ChipyModulesDict w) n of
                          Some (Analog m) \<Rightarrow> Some (netlist w m)
                        | Some (Digital m) \<Rightarrow> None
                        | None \<Rightarrow> None)" for n
      using netlist_modules_lookup[OF m d, of n] by (simp split: option.splits modobj.splits)
    with j o show ?thesis by blast
  qed
  have b: "\<exists>out. WriteNetlist dumps f w = Inr out"
    if c: "\<forall>n m. map_of (ChipyModulesDict w) n = Some (Analog m) \<longrightarrow> constructed w m"
      and t: "\<forall>obj. \<exists>j. dumps obj True 2 ('','', '': '') = Inr j"
  proof -
    have "\<forall>(n, obj)\<in>set (ChipyModulesDict w). \<forall>m. obj = Analog m \<longrightarrow> constructed w m"
      using c d by auto
    from netlist_modules_returns[OF this] obtain modules where
      m: "netlist_modules w (ChipyModulesDict w) [] = Inr modules" by blast
    from t obtain j where "dumps (PyDict [(''modules'', PyDict modules)]) True 2 ('','', '': '') = Inr j"
      by blast
    with m show ?thesis by (simp add: WriteNetlist_def)
  qed
  from a b show ?thesis by blast
qed

theorem WriteNetlist_modules_witness:
  "distinct (map fst (ChipyModulesDict rc_world))
   \<and> constructed rc_world 0
   \<and> (\<exists>out modules j. WriteNetlist dumps_stub ''# '' rc_world = Inr out
         \<and> out = ''# '' @ j @ [CHR 0x0A]
         \<and> map_option Inr (map_of modules ''rc'') = Some (netlist rc_world 0)
         \<and> map_of modules ''top'' = None)"
proof -
  have d: "distinct (map fst (ChipyModulesDict rc_world))"
    and m: "map_of (ChipyModulesDict rc_world) ''rc'' = Some (Analog 0)"
      "map_of (ChipyModulesDict rc_world) ''top'' = Some (Digital 0)"
    by (simp_all add: rc_world_def)
  have c: "\<forall>n m. map_of (ChipyModulesDict rc_world) n = Some (Analog m) \<longrightarrow> constructed rc_world m"
    using rc_constructed by (auto simp: rc_world_def split: if_splits)
  have t: "\<forall>obj. \<exists>j. dumps_stub obj True 2 ('','', '': '') = Inr j"
    by (simp add: dumps_stub_def)
  note w = WriteNetlist_modules[OF d, of dumps_stub "''# ''"]
  from w c t obtain out where o: "WriteNetlist dumps_stub ''# '' rc_world = Inr out"
    by blast
  with w obtain modules j where
    "out = ''# '' @ j @ [CHR 0x0A]"
    "\<forall>n. map_option Inr (map_of modules n)
                     = (case map_of (ChipyModulesDict rc_world) n of
                          Some (Analog m) \<Rightarrow> Some (netlist rc_world m)
                        | Some (Digital m) \<Rightarrow> None
                        | None \<Rightarrow> None)"
    by blast
  then have "out = ''# '' @ j @ [CHR 0x0A]"
    "map_option Inr (map_of modules ''rc'') = Some (netlist rc_world 0)"
    "map_of modules ''top'' = None"
    using m by (auto dest: spec[of _ "''rc''"] spec[of _ "''top''"])
  with d rc_constructed o show ?thesis by blast
qed

subsection \<open>The dictionaries of every reachable state\<close>

text \<open>
  What the hypotheses on dictionaries above rest on: in every state a program can reach,
  no dictionary has a key twice, and every signal is registered under its own name.
\<close>

lemma registries_ok_init: "registries_ok init_world"
  by (simp add: registries_ok_def init_world_def)

lemma registries_ok_ChipyAnalogSignal_init:
  assumes "registries_ok w"
  shows "registries_ok (snd (ChipyAnalogSignal_init m name w))"
proof -
  let ?w = "snd (ChipyAnalogSignal_init m name w)"
  have s: "signals (module_heap ?w k)
             = (if k = m then AList.update name (n_signals w) (signals (module_heap w m))
                else signals (module_heap w k))" for k
    by (simp add: ChipyAnalogSignal_init_def upd_module_def Let_def)
  have d: "devices (module_heap ?w k) = devices (module_heap w k)" for k
    by (simp add: ChipyAnalogSignal_init_def upd_module_def Let_def)
  have h: "n_signals ?w = Suc (n_signals w)"
    "sig_name (signal_heap ?w (n_signals w)) = name"
    "\<And>r. r < n_signals w \<Longrightarrow> signal_heap ?w r = signal_heap w r"
    "ChipyModulesDict ?w = ChipyModulesDict w"
    by (simp_all add: ChipyAnalogSignal_init_def upd_module_def Let_def)
  have e: "r < n_signals ?w \<and> sig_name (signal_heap ?w r) = n"
    if "(n, r) \<in> set (signals (module_heap ?w k))" for n r k
  proof (cases "(n, r) \<in> set (signals (module_heap w k))")
    case True
    with assms have "r < n_signals w" "sig_name (signal_heap w r) = n"
      by (auto simp: registries_ok_def)
    with h show ?thesis by simp
  next
    case False
    with that s[of k] have "(n, r) = (name, n_signals w)"
      by (auto dest: in_update split: if_splits)
    with h show ?thesis by simp
  qed
  have "distinct (map fst (signals (module_heap ?w k)))" for k
    using assms s[of k] by (simp add: registries_ok_def AList.distinct_update)
  with assms d h(4) e show ?thesis
    unfolding registries_ok_def by auto
qed

lemma registries_ok_upd_signal:
  "registries_ok w \<Longrightarrow> (\<And>s. sig_name (f s) = sig_name s) \<Longrightarrow> registries_ok (upd_signal r f w)"
  by (auto simp: registries_ok_def upd_signal_def)

lemma registries_ok_upd_device: "registries_ok w \<Longrightarrow> registries_ok (upd_device r f w)"
  by (auto simp: registries_ok_def upd_device_def)

lemma registries_ok_AnalogSig: "registries_ok w \<Longrightarrow> registries_ok (snd (AnalogSig a wd w))"
proof (cases a)
  case (PyStr n)
  assume i: "registries_ok w"
  show ?thesis
  proof (cases "ChipyCurrentContext w")
    case None
    with PyStr i show ?thesis by simp
  next
    case (Some m)
    obtain s w1 where c: "ChipyAnalogSignal_init m n w = (s, w1)"
      by (cases "ChipyAnalogSignal_init m n w")
    with registries_ok_ChipyAnalogSignal_init[OF i, of m n] have k: "registries_ok w1" by simp
    then have "registries_ok (upd_signal s (\<lambda>s. s\<lparr>width := x\<rparr>) w1)" for x
      by (rule registries_ok_upd_signal) simp
    with PyStr Some c i k show ?thesis
      by (simp split: option.splits)
  qed
qed (simp_all split: option.splits)

lemma registries_ok_ChipyDevice_init:
  assumes "registries_ok w"
  shows "registries_ok (snd (ChipyDevice_init cls m nm w))"
proof -
  have u: "registries_ok (upd_module m (\<lambda>x. x\<lparr>devices := AList.update k v (devices x)\<rparr>) u)"
    if "registries_ok u" for u k v
    using that by (auto simp: registries_ok_def upd_module_def AList.distinct_update)
  have a: "registries_ok (u\<lparr>device_heap := h, n_devices := n\<rparr>)" if "registries_ok u" for u h n
    using that by (simp add: registries_ok_def)
  have b: "registries_ok (u\<lparr>IdCount := c\<rparr>)" if "registries_ok u" for u c
    using that by (simp add: registries_ok_def)
  show ?thesis
    using assms
    by (auto simp: ChipyDevice_init_def Let_def split: option.splits
             intro!: registries_ok_upd_device u a b)
qed

lemma registries_ok_seq:
  assumes "registries_ok (snd (f w))" "\<And>a v. registries_ok v \<Longrightarrow> registries_ok (snd (g a v))"
  shows "registries_ok (snd (seq f g w))"
  using assms by (cases "f w") (auto simp: seq_def split: sum.splits)

lemma registries_ok_ChipyPassive_init:
  "registries_ok w \<Longrightarrow> registries_ok (snd (ChipyPassive_init cls m nm s1 s2 v w))"
  unfolding ChipyPassive_init_def
  by (intro registries_ok_seq registries_ok_ChipyDevice_init registries_ok_AnalogSig
        registries_ok_upd_device)
     (simp_all add: registries_ok_upd_device)

lemma registries_ok_ChipyTransistor_init:
  "registries_ok w \<Longrightarrow> registries_ok (snd (ChipyTransistor_init m nm c b e sub kw w))"
  unfolding ChipyTransistor_init_def
  by (intro registries_ok_seq registries_ok_ChipyDevice_init registries_ok_AnalogSig
        registries_ok_upd_device)
     (simp_all add: registries_ok_upd_device)

lemma registries_ok_comprehension:
  assumes "\<And>x v. x \<in> set xs \<Longrightarrow> registries_ok v \<Longrightarrow> registries_ok (snd (f x v))"
    "registries_ok w"
  shows "registries_ok (snd (comprehension f xs w))"
  using assms
proof (induction xs arbitrary: w)
  case Nil
  then show ?case by simp
next
  case (Cons x xs)
  have 1: "registries_ok (snd (f x w))" using Cons.prems by simp
  have 2: "registries_ok (snd (comprehension f xs v))" if "registries_ok v" for v
    using Cons.IH[OF _ that] Cons.prems(1) by simp
  show ?case
    using 1 2[of "snd (f x w)"] by (auto split: prod.splits sum.splits)
qed

lemma registries_ok_AddDigitalInput:
  "registries_ok w \<Longrightarrow> registries_ok (snd (AddDigitalInput name ty hv lv w))"
proof (induction name ty hv lv w rule: AddDigitalInput.induct)
  case (1 name ty hv lv w)
  show ?case
  proof (cases "1 < length (str_split name)")
    case True
    have "registries_ok (snd (comprehension
            (\<lambda>n. AddDigitalInput n (PyInt 1) (PyFloat (33 / 10)) (PyInt 0)) (str_split name) w))"
      by (rule registries_ok_comprehension) (use True "1.IH" "1.prems" in auto)
    with True show ?thesis
      by (subst AddDigitalInput.simps) (auto split: prod.splits sum.splits)
  next
    case False
    have "registries_ok (upd_signal s f u)"
      if "ChipyAnalogSignal_init m n w = (s', u)" "\<And>x. sig_name (f x) = sig_name x"
      for s s' u f m n
      using registries_ok_upd_signal[OF registries_ok_ChipyAnalogSignal_init[OF "1.prems", of m n]]
        that by simp
    with False "1.prems" show ?thesis
      by (subst AddDigitalInput.simps) (fastforce split: prod.splits option.splits)
  qed
qed

lemma registries_ok_AddAnalogOutput:
  "registries_ok w \<Longrightarrow> registries_ok (snd (AddAnalogOutput name ty w))"
proof (induction name ty w rule: AddAnalogOutput.induct)
  case (1 name ty w)
  show ?case
  proof (cases "1 < length (str_split name)")
    case True
    have "registries_ok (snd (comprehension (\<lambda>n. AddAnalogOutput n (PyInt 1)) (str_split name) w))"
      by (rule registries_ok_comprehension) (use True "1.IH" "1.prems" in auto)
    with True show ?thesis
      by (subst AddAnalogOutput.simps) (auto split: prod.splits sum.splits)
  next
    case False
    have "registries_ok (upd_signal s f u)"
      if "ChipyAnalogSignal_init m n w = (s', u)" "\<And>x. sig_name (f x) = sig_name x"
      for s s' u f m n
      using registries_ok_upd_signal[OF registries_ok_ChipyAnalogSignal_init[OF "1.prems", of m n]]
        that by simp
    with False "1.prems" show ?thesis
      by (subst AddAnalogOutput.simps) (fastforce split: prod.splits option.splits)
  qed
qed

lemma registries_ok_AddPower: "registries_ok w \<Longrightarrow> registries_ok (snd (AddPower name v w))"
proof -
  assume i: "registries_ok w"
  have "registries_ok (upd_signal s (\<lambda>x. x\<lparr>sig_power := True, power_value := v\<rparr>) u)"
    if "registries_ok u" for s u
    using that by (rule registries_ok_upd_signal) simp
  with i registries_ok_ChipyPassive_init[OF i] show ?thesis
    by (auto simp: AddPower_def split: option.splits prod.splits sum.splits pyval.splits)
       (metis snd_conv)+
qed

lemma registries_ok_AddGnd: "registries_ok w \<Longrightarrow> registries_ok (snd (AddGnd name w))"
proof -
  assume i: "registries_ok w"
  have "registries_ok (upd_signal s (\<lambda>x. x\<lparr>ground := True\<rparr>) u)" if "registries_ok u" for s u
    using that by (rule registries_ok_upd_signal) simp
  with i registries_ok_AnalogSig[OF i, of name "Some 1"] show ?thesis
    by (auto simp: AddGnd_def split: option.splits prod.splits sum.splits pyval.splits)
qed

lemma registries_ok_AddR: "registries_ok w \<Longrightarrow> registries_ok (snd (AddR s1 s2 v w))"
  using registries_ok_ChipyPassive_init[of w ChipyResistor _ None s1 s2 v]
  by (auto simp: AddR_def split: option.splits prod.splits sum.splits) (metis snd_conv)+

lemma registries_ok_AddC: "registries_ok w \<Longrightarrow> registries_ok (snd (AddC s1 s2 v w))"
  using registries_ok_ChipyPassive_init[of w ChipyCapacitor _ None s1 s2 v]
  by (auto simp: AddC_def split: option.splits prod.splits sum.splits) (metis snd_conv)+

lemma registries_ok_AddQ: "registries_ok w \<Longrightarrow> registries_ok (snd (AddQ c b e sub kw w))"
  using registries_ok_ChipyTransistor_init[of w _ None c b e sub kw]
  by (auto simp: AddQ_def split: option.splits prod.splits sum.splits) (metis snd_conv)+

lemma registries_ok_AddAnalogModule:
  "registries_ok w \<Longrightarrow> registries_ok (snd (AddAnalogModule name w))"
  by (auto simp: AddAnalogModule_def ChipyAnalogModule_init_def Let_def registries_ok_def
        AList.distinct_update)

lemma registries_ok_exec: "registries_ok w \<Longrightarrow> registries_ok (exec c w)"
proof (cases c)
  case (Call_Enter m)
  assume "registries_ok w"
  with Call_Enter show ?thesis by (simp add: registries_ok_def)
next
  case (Call_Exit m)
  assume "registries_ok w"
  with Call_Exit show ?thesis by (simp add: registries_ok_def)
next
  case (Call_AddModule n m)
  assume "registries_ok w"
  with Call_AddModule show ?thesis by (simp add: registries_ok_def AList.distinct_update)
qed (simp_all add: registries_ok_AddAnalogModule registries_ok_ChipyAnalogSignal_init
       registries_ok_AnalogSig registries_ok_ChipyPassive_init registries_ok_ChipyTransistor_init
       registries_ok_AddDigitalInput registries_ok_AddAnalogOutput registries_ok_AddPower
       registries_ok_AddGnd registries_ok_AddR registries_ok_AddC registries_ok_AddQ
       AddDigitalOutput_def AddAnalogInput_def)

lemma registries_ok_run: "registries_ok (run cs init_world)"
proof -
  have "registries_ok w \<Longrightarrow> registries_ok (run cs w)" for w
    unfolding run_def by (induction cs arbitrary: w) (simp_all add: registries_ok_exec)
  with registries_ok_init show ?thesis by blast
qed

subsection \<open>Devices whose constructor did not finish\<close>

text \<open>
  A device constructor that returns leaves a complete device; the pins it resolves with
  width 1 are signals.
\<close>

lemma AnalogSig_width_signal:
  "AnalogSig a (Some x) w = (Inr v, w1) \<Longrightarrow> is_signal (Some v)"
  by (cases a) (auto split: option.splits if_splits prod.splits)

lemma AnalogSig_device_heap: "AnalogSig a wd w = (res, w1) \<Longrightarrow> device_heap w1 = device_heap w"
  by (rule AnalogSig_frame(2))

lemma ChipyPassive_init_complete:
  assumes "ChipyPassive_init cls m nm s1 s2 v w = (Inr d, w1)" "is_passive cls"
  shows "device_complete (device_heap w1 d)"
proof -
  from assms(1) obtain wa a wb b wc where
    1: "ChipyDevice_init cls m nm w = (Inr d, wa)" and
    2: "AnalogSig s1 (Some 1) wa = (Inr a, wb)" and
    3: "AnalogSig s2 (Some 1) (upd_device d (\<lambda>x. x\<lparr>sig1 := Some a\<rparr>) wb) = (Inr b, wc)" and
    4: "w1 = upd_device d (\<lambda>x. x\<lparr>dev_value := Some v\<rparr>) (upd_device d (\<lambda>x. x\<lparr>sig2 := Some b\<rparr>) wc)"
    by (auto simp: ChipyPassive_init_def seq_def split: prod.splits sum.splits)
  from 1 have c: "dev_class (device_heap wa d) = cls"
    by (auto simp: ChipyDevice_init_def Let_def upd_device_def upd_module_def
             split: option.splits if_splits)
  have h: "device_heap wc = (device_heap wa)(d := (device_heap wa d)\<lparr>sig1 := Some a\<rparr>)"
    using AnalogSig_device_heap[OF 2] AnalogSig_device_heap[OF 3] by (simp add: upd_device_def)
  from AnalogSig_width_signal[OF 2] AnalogSig_width_signal[OF 3] c h 4 assms(2) show ?thesis
    by (simp add: device_complete_def upd_device_def)
qed

text \<open>
  A constructor that raises while it resolves a pin has registered the device already.
  Here \<^verbatim>\<open>ChipyResistor(module, None, 'a', 0, 100)\<close>, with the integer \<^verbatim>\<open>0\<close> where a signal or
  a name belongs: \<^verbatim>\<open>AnalogSig\<close> fails its last assertion, \<^verbatim>\<open>R1\<close> stays in \<^verbatim>\<open>module.devices\<close>
  without its second pin, and \<^verbatim>\<open>netlist()\<close> and \<^verbatim>\<open>eispice_model()\<close> of the module raise
  \<^verbatim>\<open>AttributeError\<close> from then on.
\<close>

lemma unfinished_device_breaks_netlist:
  "\<exists>w1. ChipyPassive_init ChipyResistor 0 None (PyStr ''a'') (PyInt 0) (PyInt 100) two_modules
           = (Inl AssertionError, w1)
        \<and> devices (module_heap w1 0) = [(''R1'', 0)]
        \<and> \<not> constructed w1 0
        \<and> netlist w1 0 = Inl AttributeError
        \<and> eispice_model w1 0 = Inl AttributeError"
  by (simp add: two_modules_eq eval_defs constructed_def device_complete_def netlist_def
        connections_def eispice_model_def device_eispice_model_def)

end
